theory Spec2Isabelle
  imports Main
begin

section \<open>JavaScript strings\<close>

text \<open>
  A JavaScript string is modelled as a HOL \<open>string\<close>: the list of the bytes of its UTF-8
  encoding. Every separator, character class and literal the two scripts look for is
  ASCII, and no byte of a multi-byte UTF-8 sequence is an ASCII byte, so splitting,
  searching and replacing on bytes is splitting, searching and replacing on characters.
  Lengths are only ever subtracted from each other on the same string.
\<close>

text \<open>\<open>s.endsWith(suffix)\<close>.\<close>

definition endsWith :: "string \<Rightarrow> string \<Rightarrow> bool" where
  "endsWith s suffix =
     (length suffix \<le> length s \<and> drop (length s - length suffix) s = suffix)"

text \<open>\<open>s.includes(c)\<close> for a one-character string \<open>c\<close>.\<close>

definition includes_char :: "string \<Rightarrow> char \<Rightarrow> bool" where
  "includes_char s c = (c \<in> set s)"

text \<open>
  \<open>s.split(c)\<close> for a one-character separator: the pieces between the occurrences of
  \<open>c\<close>, so a string without the separator gives the one-element array holding it.
\<close>

fun split_on :: "char \<Rightarrow> string \<Rightarrow> string list" where
  "split_on c [] = [[]]"
| "split_on c (x # xs) =
     (if x = c then [] # split_on c xs
      else (x # hd (split_on c xs)) # tl (split_on c xs))"

text \<open>\<open>parts.join(sep)\<close>.\<close>

fun join_with :: "string \<Rightarrow> string list \<Rightarrow> string" where
  "join_with sep [] = []"
| "join_with sep [p] = p"
| "join_with sep (p # q # ps) = p @ sep @ join_with sep (q # ps)"

text \<open>
  \<open>s.replace(c, r)\<close> with a one-character string pattern: only the first occurrence is
  replaced.
\<close>

fun replace_first :: "char \<Rightarrow> string \<Rightarrow> string \<Rightarrow> string" where
  "replace_first c r [] = []"
| "replace_first c r (x # xs) = (if x = c then r @ xs else x # replace_first c r xs)"

section \<open>The filename codec\<close>

text \<open>The object \<open>{ name, version }\<close>. A variable of the source called \<open>name\<close> or
  \<open>version\<close> is written \<open>name'\<close>, \<open>version'\<close>, the plain names being the fields.\<close>

record package =
  name :: string
  version :: string

subsection \<open>Decoding: \<open>extractPackageInfo\<close> (publish.cjs)\<close>

text \<open>\<open>tgzFileName.replace(/\.tgz$/, '')\<close>: a final \<open>.tgz\<close> is removed.\<close>

definition strip_tgz :: "string \<Rightarrow> string" where
  "strip_tgz s = (if endsWith s ''.tgz'' then take (length s - 4) s else s)"

text \<open>The character classes \<open>\d\<close> (ASCII digits, the pattern has no \<open>u\<close> flag) and
  \<open>[a-zA-Z0-9.]\<close>.\<close>

definition is_digit :: "char \<Rightarrow> bool" where
  "is_digit c = (c \<in> set ''0123456789'')"

definition is_tag_char :: "char \<Rightarrow> bool" where
  "is_tag_char c =
     (c \<in> set ''abcdefghijklmnopqrstuvwxyzABCDEFGHIJKLMNOPQRSTUVWXYZ0123456789.'')"

text \<open>
  \<open>\d+\<close> at the head of a string: the rest after the digits. What follows \<open>\d+\<close> in the
  pattern is never a digit (a period, a hyphen or the end), so the only way the whole
  pattern can match is with \<open>\d+\<close> taking the whole run of digits.
\<close>

definition eat_digits :: "string \<Rightarrow> string option" where
  "eat_digits s =
     (case s of [] \<Rightarrow> None
      | c # cs \<Rightarrow> if is_digit c then Some (dropWhile is_digit cs) else None)"

definition eat_char :: "char \<Rightarrow> string \<Rightarrow> string option" where
  "eat_char c s = (case s of [] \<Rightarrow> None | x # xs \<Rightarrow> if x = c then Some xs else None)"

text \<open>The group of the pattern followed by the end of input:
  \<open>\d+\.\d+\.\d+(?:-[a-zA-Z0-9.]+)?$\<close>.\<close>

definition is_version :: "string \<Rightarrow> bool" where
  "is_version s =
     (case Option.bind (Option.bind (Option.bind (Option.bind (eat_digits s)
             (eat_char CHR ''.'')) eat_digits) (eat_char CHR ''.'')) eat_digits of
        None \<Rightarrow> False
      | Some t \<Rightarrow>
          (case t of [] \<Rightarrow> True
           | c # tag \<Rightarrow> c = CHR ''-'' \<and> tag \<noteq> [] \<and> list_all is_tag_char tag))"

text \<open>
  \<open>baseName.match(/-(\d+\.\d+\.\d+(?:-[a-zA-Z0-9.]+)?)$/)\<close>: the search tries every
  start position from the left, so the match is at the first hyphen after which the rest
  of the string is a version. The result is the group, or \<open>None\<close> for \<open>null\<close>.
\<close>

fun versionMatch :: "string \<Rightarrow> string option" where
  "versionMatch [] = None"
| "versionMatch (c # cs) =
     (if c = CHR ''-'' \<and> is_version cs then Some cs else versionMatch cs)"

definition extractPackageInfo :: "string \<Rightarrow> package option" where
  "extractPackageInfo tgzFileName =
     (let baseName = strip_tgz tgzFileName in
      case versionMatch baseName of
        None \<Rightarrow> None
      | Some version' \<Rightarrow>
          let nameWithHyphen = take (length baseName - length version' - 1) baseName;
              parts = split_on CHR ''-'' nameWithHyphen;
              name' =
                (if includes_char nameWithHyphen CHR ''-''
                 then (if length parts \<ge> 2 \<and> \<not> includes_char (hd parts) CHR ''.''
                       then ''@'' @ hd parts @ ''/'' @ join_with ''-'' (tl parts)
                       else nameWithHyphen)
                 else nameWithHyphen)
          in Some \<lparr>name = name', version = version'\<rparr>)"

subsection \<open>Encoding: \<open>getPossiblePackageFilenames\<close> (the snapshot script)\<close>

definition getPossiblePackageFilenames :: "string \<Rightarrow> string \<Rightarrow> string list" where
  "getPossiblePackageFilenames name' version' =
     (let normalizedName = replace_first CHR ''/'' ''-'' (replace_first CHR ''@'' '''' name');
          nameWithoutScope =
            (if includes_char name' CHR ''/'' then split_on CHR ''/'' name' ! 1 else name')
      in [normalizedName @ ''-'' @ version' @ ''.tgz'',
          nameWithoutScope @ ''-'' @ version' @ ''.tgz'',
          replace_first CHR ''/'' ''-'' (replace_first CHR ''@'' '''' name')
            @ ''-'' @ version' @ ''.tgz''])"

section \<open>The host: file system, shell and effects\<close>

text \<open>
  Both scripts only orchestrate: what they read comes from the file system, and the work
  is done by the commands they hand to a shell. Neither is code of the repository, so
  both are parameters of the model. A \<open>fs\<close> is what the file system answers at one moment;
  a \<open>host\<close> gives the file system of a world \<open>'w\<close> and the effect of a command on it.
\<close>

text \<open>
  What the scripts read of a parsed \<open>package.json\<close>. A field is \<open>None\<close> when it is absent;
  of a dependency object only the keys are read. Values of another JSON type in these
  fields (a number for a name, say) are outside the model.
\<close>

record manifest =
  json_name :: "string option"
  json_version :: "string option"
  json_dependencies :: "string list option"
  json_devDependencies :: "string list option"
  json_peerDependencies :: "string list option"
  json_optionalDependencies :: "string list option"

text \<open>
  \<^item> \<open>existsSync p\<close>: \<open>fs.existsSync(p)\<close>;
  \<^item> \<open>readdirSync p\<close>: \<open>fs.readdirSync(p)\<close>, \<open>None\<close> when it throws;
  \<^item> \<open>isDirectory p\<close>: \<open>fs.statSync(p).isDirectory()\<close>, \<open>None\<close> when \<open>statSync\<close> throws;
  \<^item> \<open>readJson p\<close>: \<open>JSON.parse(fs.readFileSync(p, 'utf8'))\<close>, \<open>None\<close> when reading or
    parsing throws, or when the parsed value is \<open>null\<close> (reading a field of it throws).
\<close>

record fs =
  existsSync :: "string \<Rightarrow> bool"
  readdirSync :: "string \<Rightarrow> string list option"
  isDirectory :: "string \<Rightarrow> bool option"
  readJson :: "string \<Rightarrow> manifest option"

text \<open>
  \<^item> \<open>files w\<close>: the file system in world \<open>w\<close>;
  \<^item> \<open>exec command dir w\<close>: running \<open>command\<close> in a shell with working directory \<open>dir\<close>:
    its standard output, or \<open>None\<close> when \<open>execSync\<close> throws or the promise of \<open>exec\<close>
    rejects (a non-zero exit status, a timeout, a command that cannot be started), and
    the world it leaves;
  \<^item> \<open>cwd\<close>: \<open>process.cwd()\<close>; \<open>resolve\<close>: \<open>path.resolve\<close>;
  \<^item> \<open>localeCompare\<close>: \<open>a.localeCompare(b)\<close>.
\<close>

record 'w host =
  files :: "'w \<Rightarrow> fs"
  exec :: "string \<Rightarrow> string \<Rightarrow> 'w \<Rightarrow> string option \<times> 'w"
  cwd :: string
  resolve :: "string \<Rightarrow> string"
  localeCompare :: "string \<Rightarrow> string \<Rightarrow> int"

text \<open>
  \<open>path.join(dir, entry)\<close> of Node, on POSIX: the non-empty arguments are joined by a
  separator and the result is normalised. Normalising goes through the segments between
  separators: an empty segment and \<open>.\<close> are dropped; \<open>..\<close> takes the last segment kept
  away again, unless there is none or it is \<open>..\<close> itself, in which case a relative path
  keeps the \<open>..\<close> and an absolute one drops it; every other segment is kept. A leading
  and a trailing separator of the path are put back; \<open>.\<close> stands for the empty result.
\<close>

fun normalize_segments :: "bool \<Rightarrow> string list \<Rightarrow> string list \<Rightarrow> string list" where
  "normalize_segments allowAboveRoot [] res = res"
| "normalize_segments allowAboveRoot (segment # segments) res =
     (if segment = [] \<or> segment = ''.'' then normalize_segments allowAboveRoot segments res
      else if segment = ''..'' then
        (if res \<noteq> [] \<and> last res \<noteq> ''..''
         then normalize_segments allowAboveRoot segments (butlast res)
         else if allowAboveRoot
         then normalize_segments allowAboveRoot segments (res @ [''..''])
         else normalize_segments allowAboveRoot segments res)
      else normalize_segments allowAboveRoot segments (res @ [segment]))"

definition path_normalize :: "string \<Rightarrow> string" where
  "path_normalize path =
     (if path = [] then ''.''
      else
        let isAbsolute = (hd path = CHR ''/'');
            trailingSeparator = (last path = CHR ''/'');
            kept = join_with ''/''
                     (normalize_segments (\<not> isAbsolute) (split_on CHR ''/'' path) [])
        in if kept = []
           then (if isAbsolute then ''/'' else if trailingSeparator then ''./'' else ''.'')
           else (if isAbsolute then ''/'' else []) @ kept
                  @ (if trailingSeparator then ''/'' else []))"

definition path_join :: "string \<Rightarrow> string \<Rightarrow> string" where
  "path_join dir entry =
     (if dir = [] \<and> entry = [] then ''.''
      else if dir = [] then path_normalize entry
      else if entry = [] then path_normalize dir
      else path_normalize (dir @ ''/'' @ entry))"

text \<open>
  What a run does to the outside, in order. The messages are a type of their own per
  script (the texts are not modelled, what they report is). The scripts' own writes are
  recorded, not replayed on the world, and they are taken not to throw. Nothing a run
  reads afterwards depends on them: the paths it asks for are not the ones it wrote, and
  the log file, should the archive directory be the working directory, is a name of the
  listing that does not end in \<open>.tgz\<close>.
\<close>

datatype 'm event =
    Stdout 'm
  | Stderr 'm
  | WriteFile string 'm
  | AppendFile string 'm
  | Mkdir string
  | Unlink string
  | Exec string string

record ('w, 'm) state =
  world :: 'w
  trace :: "'m event list"

definition emit :: "'m event \<Rightarrow> ('w, 'm) state \<Rightarrow> ('w, 'm) state" where
  "emit e st = st\<lparr>trace := trace st @ [e]\<rparr>"

text \<open>Handing a command to the shell: the command is recorded and the world moves on.\<close>

definition run :: "'w host \<Rightarrow> string \<Rightarrow> string \<Rightarrow> ('w, 'm) state \<Rightarrow> string option \<times> ('w, 'm) state" where
  "run h command dir st =
     (case exec h command dir (world st) of
        (out, w') \<Rightarrow> (out, st\<lparr>world := w', trace := trace st @ [Exec command dir]\<rparr>))"

subsection \<open>\<open>String.prototype.trim\<close>\<close>

text \<open>
  \<open>trim\<close> removes the WhiteSpace and LineTerminator code points of ECMAScript from both
  ends: U+0009 to U+000D, U+0020, U+00A0, U+1680, U+2000 to U+200A, U+2028, U+2029,
  U+202F, U+205F, U+3000 and U+FEFF, here by their UTF-8 encodings.
\<close>

definition js_space :: "string list" where
  "js_space =
     [[CHR 0x09], [CHR 0x0A], [CHR 0x0B], [CHR 0x0C], [CHR 0x0D], [CHR 0x20],
      [CHR 0xC2, CHR 0xA0], [CHR 0xE1, CHR 0x9A, CHR 0x80],
      [CHR 0xE2, CHR 0x80, CHR 0x80], [CHR 0xE2, CHR 0x80, CHR 0x81],
      [CHR 0xE2, CHR 0x80, CHR 0x82], [CHR 0xE2, CHR 0x80, CHR 0x83],
      [CHR 0xE2, CHR 0x80, CHR 0x84], [CHR 0xE2, CHR 0x80, CHR 0x85],
      [CHR 0xE2, CHR 0x80, CHR 0x86], [CHR 0xE2, CHR 0x80, CHR 0x87],
      [CHR 0xE2, CHR 0x80, CHR 0x88], [CHR 0xE2, CHR 0x80, CHR 0x89],
      [CHR 0xE2, CHR 0x80, CHR 0x8A], [CHR 0xE2, CHR 0x80, CHR 0xA8],
      [CHR 0xE2, CHR 0x80, CHR 0xA9], [CHR 0xE2, CHR 0x80, CHR 0xAF],
      [CHR 0xE2, CHR 0x81, CHR 0x9F], [CHR 0xE3, CHR 0x80, CHR 0x80],
      [CHR 0xEF, CHR 0xBB, CHR 0xBF]]"

text \<open>The number of bytes of the space at the head of \<open>s\<close>, 0 when there is none.\<close>

definition space_at :: "string list \<Rightarrow> string \<Rightarrow> nat" where
  "space_at spaces s =
     (case find (\<lambda>sp. take (length sp) s = sp) spaces of None \<Rightarrow> 0 | Some sp \<Rightarrow> length sp)"

function trimStart_with :: "string list \<Rightarrow> string \<Rightarrow> string" where
  "trimStart_with spaces s =
     (if s = [] \<or> space_at spaces s = 0 then s
      else trimStart_with spaces (drop (space_at spaces s) s))"
  by pat_completeness auto
termination
  by (relation "measure (\<lambda>(spaces, s). length s)") auto

definition js_trim :: "string \<Rightarrow> string" where
  "js_trim s = rev (trimStart_with (map rev js_space) (rev (trimStart_with js_space s)))"

section \<open>The batch publisher (publish.cjs)\<close>

text \<open>
  What the publisher prints and logs, one constructor per message of the source. The
  progress \<open>[i+1/n]\<close> of a message is its first two numbers.
\<close>

datatype pub_msg =
    Usage
  | LogHeader string
  | DirectoryMissing string
  | NoArchives
  | Preparing nat string
  | Separator
  | Unparsable nat nat string
  | Processing nat nat string string
  | AlreadyPublished nat nat string string
  | Publishing nat nat string string
  | PublishSucceeded nat nat string string
  | PublishFailed nat nat string string
  | ErrorDetail
  | StatsHeader
  | StatsTotal nat
  | StatsSuccess nat
  | StatsSkipped nat
  | StatsFailed nat
  | AllDone
  | RunFailed

text \<open>The tallies of a run: both scripts count successes and skips; the publisher calls
  its third tally \<open>failureCount\<close>, the snapshot script \<open>failCount\<close>.\<close>

record counts =
  successCount :: nat
  skippedCount :: nat

record pub_counts = counts +
  failureCount :: nat

text \<open>How a run of the publisher ends: \<open>process.exit(status)\<close>, or \<open>main\<close> returning with
  its tallies (the process then ends with status 0).\<close>

datatype pub_outcome = Exit nat | Finished pub_counts

definition logFile :: string where
  "logFile = ''publish-log.txt''"

text \<open>\<open>log(message, toConsole)\<close>: the line is appended to the log file, and printed unless
  \<open>toConsole\<close> is false.\<close>

definition log :: "pub_msg \<Rightarrow> bool \<Rightarrow> ('w, pub_msg) state \<Rightarrow> ('w, pub_msg) state" where
  "log message toConsole st =
     (let st1 = emit (AppendFile logFile message) st
      in if toConsole then emit (Stdout message) st1 else st1)"

text \<open>
  \<open>isPackagePublished\<close>: the query is run; a rejected query is caught and answers
  \<open>false\<close>, a query that ran answers whether its trimmed output is the version.
\<close>

definition viewCommand :: "string \<Rightarrow> string \<Rightarrow> string \<Rightarrow> string" where
  "viewCommand packageName version' registry =
     ''npm view '' @ packageName @ ''@'' @ version' @ '' version --registry='' @ registry"

definition isPackagePublished ::
  "'w host \<Rightarrow> string \<Rightarrow> string \<Rightarrow> string \<Rightarrow> ('w, pub_msg) state \<Rightarrow> bool \<times> ('w, pub_msg) state" where
  "isPackagePublished h packageName version' registry st =
     (let command = viewCommand packageName version' registry in
      case run h command (cwd h) st of
        (Some stdout, st') \<Rightarrow> (js_trim stdout = version', st')
      | (None, st') \<Rightarrow> (False, st'))"

definition publishCommand :: "string \<Rightarrow> string \<Rightarrow> string" where
  "publishCommand filePath registry =
     ''npm publish '' @ [CHR 0x22] @ filePath @ [CHR 0x22]
       @ '' --provenance=false --registry='' @ registry"

text \<open>
  One turn of the loop of \<open>main\<close>, for the file at index \<open>i\<close> of \<open>total'\<close>. The two
  \<open>continue\<close> statements leave the turn before the separator line; a publish command that
  throws is caught, logged and counted.
\<close>

definition publishFile ::
  "'w host \<Rightarrow> string \<Rightarrow> string \<Rightarrow> nat \<Rightarrow> nat \<Rightarrow> string
     \<Rightarrow> pub_counts \<times> ('w, pub_msg) state \<Rightarrow> pub_counts \<times> ('w, pub_msg) state" where
  "publishFile h tgzDir registry total' i file' = (\<lambda>(c, st).
     let filePath = path_join tgzDir file' in
     case extractPackageInfo file' of
       None \<Rightarrow>
         (c\<lparr>failureCount := failureCount c + 1\<rparr>, log (Unparsable (i + 1) total' file') True st)
     | Some packageInfo \<Rightarrow>
         (let name' = name packageInfo; version' = version packageInfo;
              st1 = log (Processing (i + 1) total' name' version') True st
          in case isPackagePublished h name' version' registry st1 of
            (True, st2) \<Rightarrow>
              (c\<lparr>skippedCount := skippedCount c + 1\<rparr>,
               log (AlreadyPublished (i + 1) total' name' version') True st2)
          | (False, st2) \<Rightarrow>
              (let st3 = log (Publishing (i + 1) total' name' version') True st2;
                   command = publishCommand filePath registry
               in case run h command (cwd h) st3 of
                 (Some out, st4) \<Rightarrow>
                   (c\<lparr>successCount := successCount c + 1\<rparr>,
                    log Separator True
                      (log (PublishSucceeded (i + 1) total' name' version') True st4))
               | (None, st4) \<Rightarrow>
                   (c\<lparr>failureCount := failureCount c + 1\<rparr>,
                    log Separator True
                      (log ErrorDetail False
                        (log (PublishFailed (i + 1) total' name' version') True st4))))))"

text \<open>\<open>for (let i = 0; i < files.length; i++)\<close>, from index \<open>i\<close> on.\<close>

fun publishLoop ::
  "'w host \<Rightarrow> string \<Rightarrow> string \<Rightarrow> nat \<Rightarrow> nat \<Rightarrow> string list
     \<Rightarrow> pub_counts \<times> ('w, pub_msg) state \<Rightarrow> pub_counts \<times> ('w, pub_msg) state" where
  "publishLoop h tgzDir registry total' i [] acc = acc"
| "publishLoop h tgzDir registry total' i (file' # rest) acc =
     publishLoop h tgzDir registry total' (i + 1) rest
       (publishFile h tgzDir registry total' i file' acc)"

text \<open>
  \<open>main\<close> of the publisher. \<open>readdirSync\<close> throwing rejects the promise of \<open>main\<close>: the
  handler at the end of the script logs the failure and exits with status 1.
\<close>

definition publish_main ::
  "'w host \<Rightarrow> string \<Rightarrow> string \<Rightarrow> ('w, pub_msg) state \<Rightarrow> pub_outcome \<times> ('w, pub_msg) state" where
  "publish_main h tgzDir registry st =
     (if \<not> existsSync (files h (world st)) tgzDir
      then (Exit 1, log (DirectoryMissing tgzDir) True st)
      else case readdirSync (files h (world st)) tgzDir of
        None \<Rightarrow> (Exit 1, log RunFailed True st)
      | Some entries \<Rightarrow>
          let files' = filter (\<lambda>file'. endsWith file' ''.tgz'') entries in
          if length files' = 0 then (Exit 0, log NoArchives True st)
          else
            let st1 = log Separator True (log (Preparing (length files') registry) True st);
                zero = \<lparr>successCount = 0, skippedCount = 0, failureCount = 0\<rparr>
            in case publishLoop h tgzDir registry (length files') 0 files' (zero, st1) of
              (c, st2) \<Rightarrow>
                (Finished c,
                 log AllDone True
                   (log (StatsFailed (failureCount c)) True
                     (log (StatsSkipped (skippedCount c)) True
                       (log (StatsSuccess (successCount c)) True
                         (log (StatsTotal (length files')) True
                           (log StatsHeader True st2)))))))"

text \<open>
  The script from its first line: the arguments are checked, the log file is reset, and
  \<open>main\<close> runs. \<open>args\<close> is \<open>process.argv.slice(2)\<close>; \<open>args[1] || default\<close> takes the
  default when there is no second argument or it is the empty string.
\<close>

definition registryArg :: "string list \<Rightarrow> string" where
  "registryArg args =
     (if 1 < length args \<and> args ! 1 \<noteq> [] then args ! 1 else ''http://127.0.0.1:4873'')"

definition publish_script ::
  "'w host \<Rightarrow> string list \<Rightarrow> 'w \<Rightarrow> pub_outcome \<times> ('w, pub_msg) state" where
  "publish_script h args w =
     (if length args < 1 then (Exit 1, \<lparr>world = w, trace = [Stderr Usage]\<rparr>)
      else
        let tgzDir = resolve h (args ! 0);
            registry = registryArg args
        in publish_main h tgzDir registry
             \<lparr>world = w, trace = [WriteFile logFile (LogHeader registry)]\<rparr>)"

section \<open>The dependency snapshot script\<close>

text \<open>The record written to \<open>packages-summary.json\<close>.\<close>

record summary =
  totalPackages :: nat
  directDependencies :: nat
  devDependencies :: nat
  generatedAt :: string
  packages :: "package list"

text \<open>What the snapshot script prints and logs, one constructor per message.\<close>

datatype snap_msg =
    CreatedDirectory string
  | Banner
  | StartTime string
  | UserLine
  | NoProjectManifest
  | ProjectManifestUnreadable
  | DirectDependencies nat nat
  | ReadingNodeModules
  | MaxDepthReached nat
  | NodeModulesMissing
  | NamespaceUnreadable string
  | DirectoryUnreadable string
  | NoPackagesFound
  | SummaryJson summary
  | SummaryWritten nat
  | CreatingArchives nat
  | AlreadyPresent nat nat string string
  | Packing nat nat string string
  | Packed nat nat string
  | PackFailed nat nat string string
  | TotalsHeader
  | TotalPackages nat
  | TotalSuccess nat
  | TotalSkipped nat
  | TotalFailed nat
  | SeeErrorLog
  | EndTime

text \<open>\<open>logError(message)\<close>: the line goes to \<open>error.log\<close> and to the error console.\<close>

definition logError :: "snap_msg \<Rightarrow> snap_msg event list \<Rightarrow> snap_msg event list" where
  "logError message out = out @ [AppendFile ''error.log'' message, Stderr message]"

text \<open>\<open>x || 'unknown'\<close> for a string field: absent and empty are both falsy.\<close>

definition or_unknown :: "string option \<Rightarrow> string" where
  "or_unknown x = (case x of None \<Rightarrow> ''unknown'' | Some s \<Rightarrow> if s = [] then ''unknown'' else s)"

definition getPackageInfo :: "fs \<Rightarrow> string \<Rightarrow> package option" where
  "getPackageInfo files' packageJsonPath =
     (case readJson files' packageJsonPath of
        None \<Rightarrow> None
      | Some packageJson \<Rightarrow>
          Some \<lparr>name = or_unknown (json_name packageJson),
                version = or_unknown (json_version packageJson)\<rparr>)"

text \<open>The composite key \<open>`${name}@${version}`\<close>, which the walk calls \<open>packageKey\<close> and
  \<open>main\<close> builds again for its map.\<close>

definition packageKey :: "package \<Rightarrow> string" where
  "packageKey pkg = name pkg @ ''@'' @ version pkg"

subsection \<open>The walk: \<open>getAllPackages\<close>\<close>

text \<open>
  What the walk carries from call to call: the set \<open>processedPackages\<close>, shared by all
  levels of the recursion, and what it has printed. \<open>visited\<close> is not a variable of the
  source: it observes the walk, listing the depth, path and identity of every manifest
  that \<open>getPackageInfo\<close> has parsed, whether or not the package was then recorded.
\<close>

record walk =
  processedPackages :: "string set"
  printed :: "snap_msg event list"
  visited :: "(nat \<times> string \<times> package) list"

text \<open>
  A \<open>for ... of\<close> loop inside a \<open>try\<close>: the body answers whether it threw, and a body that
  throws ends the loop. What the body has done to the accumulator before throwing stays
  done (the arrays and the set are mutated in place).
\<close>

fun forOf :: "('a \<Rightarrow> 'b \<Rightarrow> bool \<times> 'b) \<Rightarrow> 'a list \<Rightarrow> 'b \<Rightarrow> bool \<times> 'b" where
  "forOf body [] acc = (False, acc)"
| "forOf body (x # xs) acc =
     (case body x acc of
        (True, acc') \<Rightarrow> (True, acc')
      | (False, acc') \<Rightarrow> forOf body xs acc')"

text \<open>
  The block both branches of the loop share, from \<open>path.join(packagePath, 'package.json')\<close>
  on. \<open>recurse\<close> is the recursive call \<open>getAllPackages(nestedNodeModules,
  processedPackages, depth + 1, maxDepth)\<close>.
\<close>

definition visitPackage ::
  "(string \<Rightarrow> walk \<Rightarrow> package list \<times> walk) \<Rightarrow> fs \<Rightarrow> nat \<Rightarrow> string
     \<Rightarrow> package list \<times> walk \<Rightarrow> package list \<times> walk" where
  "visitPackage recurse files' depth packagePath = (\<lambda>(packages', st).
     let packageJsonPath = path_join packagePath ''package.json'' in
     case getPackageInfo files' packageJsonPath of
       None \<Rightarrow> (packages', st)
     | Some packageInfo \<Rightarrow>
         let st1 = st\<lparr>visited := visited st @ [(depth, packageJsonPath, packageInfo)]\<rparr>;
             key = packageKey packageInfo
         in if key \<in> processedPackages st1 then (packages', st1)
            else
              let st2 = st1\<lparr>processedPackages := insert key (processedPackages st1)\<rparr>;
                  nestedNodeModules = path_join packagePath ''node_modules''
              in if existsSync files' nestedNodeModules
                 then (case recurse nestedNodeModules st2 of
                         (nestedPackages, st3) \<Rightarrow>
                           (packages' @ [packageInfo] @ nestedPackages, st3))
                 else (packages' @ [packageInfo], st2))"

text \<open>One entry of a namespace directory. \<open>statSync\<close> throwing is caught by the \<open>try\<close>
  around the namespace loop.\<close>

definition scanNamespaceEntry ::
  "(string \<Rightarrow> walk \<Rightarrow> package list \<times> walk) \<Rightarrow> fs \<Rightarrow> nat \<Rightarrow> string \<Rightarrow> string
     \<Rightarrow> package list \<times> walk \<Rightarrow> bool \<times> package list \<times> walk" where
  "scanNamespaceEntry recurse files' depth namespacePath namespaceEntry acc =
     (let packagePath = path_join namespacePath namespaceEntry in
      case isDirectory files' packagePath of
        None \<Rightarrow> (True, acc)
      | Some False \<Rightarrow> (False, acc)
      | Some True \<Rightarrow> (False, visitPackage recurse files' depth packagePath acc))"

text \<open>
  One entry of a \<open>node_modules\<close> directory. A namespace that cannot be listed, or an entry
  of it that cannot be examined, is logged and the outer loop goes on; \<open>statSync\<close>
  throwing on the entry itself leaves the outer loop.
\<close>

definition scanEntry ::
  "(string \<Rightarrow> walk \<Rightarrow> package list \<times> walk) \<Rightarrow> fs \<Rightarrow> nat \<Rightarrow> string \<Rightarrow> string
     \<Rightarrow> package list \<times> walk \<Rightarrow> bool \<times> package list \<times> walk" where
  "scanEntry recurse files' depth nodeModulesPath entry acc =
     (if take 1 entry = ''@'' then
        let namespacePath = path_join nodeModulesPath entry in
        case isDirectory files' namespacePath of
          None \<Rightarrow> (True, acc)
        | Some False \<Rightarrow> (False, acc)
        | Some True \<Rightarrow>
            (case readdirSync files' namespacePath of
               None \<Rightarrow>
                 (case acc of (packages', st) \<Rightarrow>
                    (False, packages',
                     st\<lparr>printed := logError (NamespaceUnreadable namespacePath) (printed st)\<rparr>))
             | Some namespaceEntries \<Rightarrow>
                 (case forOf (scanNamespaceEntry recurse files' depth namespacePath)
                         namespaceEntries acc of
                    (True, packages', st) \<Rightarrow>
                      (False, packages',
                       st\<lparr>printed := logError (NamespaceUnreadable namespacePath) (printed st)\<rparr>)
                  | (False, acc') \<Rightarrow> (False, acc')))
      else if entry \<noteq> ''.bin'' \<and> entry \<noteq> ''.cache'' \<and> entry \<noteq> ''.package-lock.json'' then
        let packagePath = path_join nodeModulesPath entry in
        case isDirectory files' packagePath of
          None \<Rightarrow> (True, acc)
        | Some False \<Rightarrow> (False, acc)
        | Some True \<Rightarrow> (False, visitPackage recurse files' depth packagePath acc)
      else (False, acc))"

function getAllPackages ::
  "fs \<Rightarrow> string \<Rightarrow> walk \<Rightarrow> nat \<Rightarrow> nat \<Rightarrow> package list \<times> walk" where
  "getAllPackages files' nodeModulesPath st depth maxDepth =
     (if depth > maxDepth
      then ([], st\<lparr>printed := printed st @ [Stdout (MaxDepthReached maxDepth)]\<rparr>)
      else if \<not> existsSync files' nodeModulesPath
      then ([], if depth = 0 then st\<lparr>printed := printed st @ [Stderr NodeModulesMissing]\<rparr> else st)
      else
        case readdirSync files' nodeModulesPath of
          None \<Rightarrow>
            ([], st\<lparr>printed := logError (DirectoryUnreadable nodeModulesPath) (printed st)\<rparr>)
        | Some entries \<Rightarrow>
            (case forOf
                    (scanEntry (\<lambda>nested st'. getAllPackages files' nested st' (depth + 1) maxDepth)
                       files' depth nodeModulesPath)
                    entries ([], st) of
               (True, packages', st') \<Rightarrow>
                 (packages',
                  st'\<lparr>printed := logError (DirectoryUnreadable nodeModulesPath) (printed st')\<rparr>)
             | (False, acc') \<Rightarrow> acc'))"
  by pat_completeness auto
termination
  by (relation "measure (\<lambda>(files', nodeModulesPath, st, depth, maxDepth). maxDepth + 1 - depth)") auto

subsection \<open>Archive creation\<close>

text \<open>\<open>isPackageAlreadyDownloaded\<close>: the loop returns true at the first candidate that
  exists, false when none does.\<close>

definition isPackageAlreadyDownloaded :: "fs \<Rightarrow> string \<Rightarrow> string \<Rightarrow> string \<Rightarrow> bool" where
  "isPackageAlreadyDownloaded files' name' version' outputDir =
     list_ex (\<lambda>filename. existsSync files' (path_join outputDir filename))
       (getPossiblePackageFilenames name' version')"

definition packCommand :: "string \<Rightarrow> string \<Rightarrow> string" where
  "packCommand name' version' = ''npm pack '' @ name' @ ''@'' @ version'"

text \<open>\<open>createPackageFile\<close>: the command runs in the output directory (with a timeout of
  60 seconds, after which \<open>execSync\<close> throws).\<close>

definition createPackageFile ::
  "'w host \<Rightarrow> package \<Rightarrow> string \<Rightarrow> nat \<Rightarrow> nat \<Rightarrow> ('w, snap_msg) state
     \<Rightarrow> bool \<times> ('w, snap_msg) state" where
  "createPackageFile h packageInfo outputDir current total' st =
     (let name' = name packageInfo; version' = version packageInfo in
      if isPackageAlreadyDownloaded (files h (world st)) name' version' outputDir
      then (True, emit (Stdout (AlreadyPresent current total' name' version')) st)
      else
        let st1 = emit (Stdout (Packing current total' name' version')) st;
            command = packCommand name' version'
        in case run h command outputDir st1 of
             (Some out, st2) \<Rightarrow> (True, emit (Stdout (Packed current total' (js_trim out))) st2)
           | (None, st2) \<Rightarrow>
               (False, st2\<lparr>trace := logError (PackFailed current total' name' version') (trace st2)\<rparr>))"

record snap_counts = counts +
  failCount :: nat

text \<open>The callback of \<open>uniquePackages.forEach\<close>, for the package at \<open>index\<close>.\<close>

definition archivePackage ::
  "'w host \<Rightarrow> string \<Rightarrow> nat \<Rightarrow> nat \<Rightarrow> package
     \<Rightarrow> snap_counts \<times> ('w, snap_msg) state \<Rightarrow> snap_counts \<times> ('w, snap_msg) state" where
  "archivePackage h outputDir total' index pkg = (\<lambda>(c, st).
     if isPackageAlreadyDownloaded (files h (world st)) (name pkg) (version pkg) outputDir
     then (c\<lparr>skippedCount := skippedCount c + 1, successCount := successCount c + 1\<rparr>,
           emit (Stdout (AlreadyPresent (index + 1) total' (name pkg) (version pkg))) st)
     else
       case createPackageFile h pkg outputDir (index + 1) total' st of
         (True, st') \<Rightarrow> (c\<lparr>successCount := successCount c + 1\<rparr>, st')
       | (False, st') \<Rightarrow> (c\<lparr>failCount := failCount c + 1\<rparr>, st'))"

fun archiveLoop ::
  "'w host \<Rightarrow> string \<Rightarrow> nat \<Rightarrow> nat \<Rightarrow> package list
     \<Rightarrow> snap_counts \<times> ('w, snap_msg) state \<Rightarrow> snap_counts \<times> ('w, snap_msg) state" where
  "archiveLoop h outputDir total' index [] acc = acc"
| "archiveLoop h outputDir total' index (pkg # rest) acc =
     archiveLoop h outputDir total' (index + 1) rest
       (archivePackage h outputDir total' index pkg acc)"

subsection \<open>\<open>main\<close> of the snapshot script\<close>

text \<open>\<open>createDirIfNotExists\<close>.\<close>

definition createDirIfNotExists ::
  "'w host \<Rightarrow> string \<Rightarrow> ('w, snap_msg) state \<Rightarrow> ('w, snap_msg) state" where
  "createDirIfNotExists h dirPath st =
     (if \<not> existsSync (files h (world st)) dirPath
      then emit (Stdout (CreatedDirectory dirPath)) (emit (Mkdir dirPath) st)
      else st)"

text \<open>
  \<open>getProjectDirectDependencies\<close>: the four dependency objects of the project's
  \<open>package.json\<close>, by their keys, or \<open>None\<close> for the empty object \<open>{}\<close> it returns when the
  file is missing or cannot be read.
\<close>

record direct_deps =
  dependencies :: "string list"
  devDependencies' :: "string list"
  peerDependencies :: "string list"
  optionalDependencies :: "string list"

definition or_empty :: "string list option \<Rightarrow> string list" where
  "or_empty x = (case x of None \<Rightarrow> [] | Some keys \<Rightarrow> keys)"

definition getProjectDirectDependencies ::
  "'w host \<Rightarrow> ('w, snap_msg) state \<Rightarrow> direct_deps option \<times> ('w, snap_msg) state" where
  "getProjectDirectDependencies h st =
     (let projectPackageJsonPath = path_join (cwd h) ''package.json'' in
      if \<not> existsSync (files h (world st)) projectPackageJsonPath
      then (None, emit (Stdout NoProjectManifest) st)
      else
        case readJson (files h (world st)) projectPackageJsonPath of
          Some packageJson \<Rightarrow>
            (Some \<lparr>dependencies = or_empty (json_dependencies packageJson),
                   devDependencies' = or_empty (json_devDependencies packageJson),
                   peerDependencies = or_empty (json_peerDependencies packageJson),
                   optionalDependencies = or_empty (json_optionalDependencies packageJson)\<rparr>,
             st)
        | None \<Rightarrow> (None, st\<lparr>trace := logError ProjectManifestUnreadable (trace st)\<rparr>))"

text \<open>
  \<open>new Map(entries)\<close> keeps a key at the place of its first insertion and gives it the
  value of its last; \<open>Array.from(map.values())\<close> lists the values in that order.
\<close>

fun map_set :: "string \<Rightarrow> 'v \<Rightarrow> (string \<times> 'v) list \<Rightarrow> (string \<times> 'v) list" where
  "map_set k v [] = [(k, v)]"
| "map_set k v ((k', v') # m) = (if k' = k then (k, v) # m else (k', v') # map_set k v m)"

definition new_Map :: "(string \<times> 'v) list \<Rightarrow> (string \<times> 'v) list" where
  "new_Map entries = foldl (\<lambda>m (k, v). map_set k v m) [] entries"

text \<open>\<open>xs.sort(compare)\<close>, which is stable: insertion from the right, each element put
  before the first one it does not sort after.\<close>

fun insert_sorted :: "('a \<Rightarrow> 'a \<Rightarrow> int) \<Rightarrow> 'a \<Rightarrow> 'a list \<Rightarrow> 'a list" where
  "insert_sorted compare x [] = [x]"
| "insert_sorted compare x (y # ys) =
     (if compare x y \<le> 0 then x # y # ys else y # insert_sorted compare x ys)"

definition js_sort :: "('a \<Rightarrow> 'a \<Rightarrow> int) \<Rightarrow> 'a list \<Rightarrow> 'a list" where
  "js_sort compare xs = foldr (insert_sorted compare) xs []"

definition uniquePackages :: "'w host \<Rightarrow> package list \<Rightarrow> package list" where
  "uniquePackages h packages' =
     js_sort (\<lambda>a b. localeCompare h (name a) (name b))
       (map snd (new_Map (map (\<lambda>pkg. (packageKey pkg, pkg)) packages')))"

text \<open>How a run of the snapshot script ends: \<open>main\<close> returns, with its tallies when it
  reached the archive loop, or an exception leaves it uncaught.\<close>

datatype snap_outcome = Returned "snap_counts option" | Uncaught

text \<open>
  \<open>main\<close>. When \<open>getProjectDirectDependencies\<close> has returned \<open>{}\<close>,
  \<open>Object.keys(directDeps.dependencies)\<close> is \<open>Object.keys(undefined)\<close>, which throws a
  TypeError that nothing catches. The walk starts from a new set, at depth 0, with the
  default maximum depth 10.
\<close>

definition snapshot_main :: "'w host \<Rightarrow> 'w \<Rightarrow> snap_outcome \<times> ('w, snap_msg) state" where
  "snapshot_main h w =
     (let currentDateTime = ''2025-04-27 10:29:54'';
          st0 = \<lparr>world = w,
                 trace = [Stdout Banner, Stdout (StartTime currentDateTime), Stdout UserLine]\<rparr>;
          nodeModulesPath = path_join (cwd h) ''node_modules'';
          outputDir = path_join (cwd h) ''pkg'';
          st1 = createDirIfNotExists h outputDir st0;
          st2 = (if existsSync (files h (world st1)) ''error.log''
                 then emit (Unlink ''error.log'') st1 else st1)
      in case getProjectDirectDependencies h st2 of
        (None, st3) \<Rightarrow> (Uncaught, st3)
      | (Some directDeps, st3) \<Rightarrow>
          let st4 = emit (Stdout ReadingNodeModules)
                      (emit (Stdout (DirectDependencies (length (dependencies directDeps))
                                       (length (devDependencies' directDeps)))) st3)
          in case getAllPackages (files h (world st4)) nodeModulesPath
                    \<lparr>processedPackages = {}, printed = trace st4, visited = []\<rparr> 0 10 of
            (packages', walked) \<Rightarrow>
              let st5 = st4\<lparr>trace := printed walked\<rparr> in
              if length packages' = 0
              then (Returned None, emit (Stdout NoPackagesFound) st5)
              else
                let unique = uniquePackages h packages';
                    summary' = \<lparr>totalPackages = length unique,
                                directDependencies = length (dependencies directDeps),
                                devDependencies = length (devDependencies' directDeps),
                                generatedAt = currentDateTime,
                                packages = unique\<rparr>;
                    st6 = emit (Stdout (CreatingArchives (length unique)))
                            (emit (Stdout (SummaryWritten (length unique)))
                              (emit (WriteFile ''packages-summary.json'' (SummaryJson summary')) st5));
                    zero = \<lparr>successCount = 0, skippedCount = 0, failCount = 0\<rparr>
                in case archiveLoop h outputDir (length unique) 0 unique (zero, st6) of
                  (c, st7) \<Rightarrow>
                    let st8 = emit (Stdout (TotalFailed (failCount c)))
                                (emit (Stdout (TotalSkipped (skippedCount c)))
                                  (emit (Stdout (TotalSuccess (successCount c)))
                                    (emit (Stdout (TotalPackages (length unique)))
                                      (emit (Stdout TotalsHeader) st7))));
                        st9 = (if failCount c > 0 then emit (Stdout SeeErrorLog) st8 else st8)
                    in (Returned (Some c), emit (Stdout EndTime) st9))"

section \<open>Reading a trace\<close>

text \<open>The commands a run handed to the shell, in order, and the files it wrote.\<close>

fun executed :: "'m event list \<Rightarrow> string list" where
  "executed [] = []"
| "executed (Exec command dir # es) = command # executed es"
| "executed (e # es) = executed es"

fun written :: "'m event list \<Rightarrow> string list" where
  "written [] = []"
| "written (WriteFile path m # es) = path # written es"
| "written (e # es) = written es"

text \<open>
  That the registry has an identity, as the publisher can tell: in world \<open>w\<close> the query for
  \<open>n@v\<close> runs and prints \<open>v\<close>, spaces aside.
\<close>

definition reported :: "'w host \<Rightarrow> string \<Rightarrow> string \<Rightarrow> string \<Rightarrow> 'w \<Rightarrow> bool" where
  "reported h n v registry w =
     (case fst (exec h (viewCommand n v registry) (cwd h) w) of
        None \<Rightarrow> False
      | Some out \<Rightarrow> js_trim out = v)"

text \<open>Whether a command succeeds in world \<open>w\<close>, and the world it leaves.\<close>

definition succeeds :: "'w host \<Rightarrow> string \<Rightarrow> 'w \<Rightarrow> bool" where
  "succeeds h command w = (fst (exec h command (cwd h) w) \<noteq> None)"

definition world_after :: "'w host \<Rightarrow> string \<Rightarrow> 'w \<Rightarrow> 'w" where
  "world_after h command w = snd (exec h command (cwd h) w)"

section \<open>The pattern of a version, as a language\<close>

text \<open>
  The strings the group of the pattern matches, \<open>\d+\.\d+\.\d+(?:-[a-zA-Z0-9.]+)?\<close>, said
  without a matching procedure: three non-empty runs of digits separated by periods,
  then nothing or a hyphen and a non-empty tag.
\<close>

definition digits :: "string \<Rightarrow> bool" where
  "digits a = (a \<noteq> [] \<and> list_all is_digit a)"

definition version_like :: "string \<Rightarrow> bool" where
  "version_like v =
     (\<exists>a b c t. v = a @ ''.'' @ b @ ''.'' @ c @ t \<and> digits a \<and> digits b \<and> digits c
        \<and> (t = [] \<or> (\<exists>g. t = ''-'' @ g \<and> g \<noteq> [] \<and> list_all is_tag_char g)))"

section \<open>What a stretch of the walk may do\<close>

text \<open>
  The relation between the accumulator (the array \<open>packages\<close> and the state of the walk)
  before and after any stretch of a walk with maximum depth \<open>maxDepth\<close>: packages are only
  appended, with keys that are new and different from each other; the set of processed
  keys grows by exactly these keys; and every manifest parsed on the way was parsed at a
  depth within the bound and has its key in the set afterwards, the appended packages
  being among them.
\<close>

definition grows :: "nat \<Rightarrow> package list \<times> walk \<Rightarrow> package list \<times> walk \<Rightarrow> bool" where
  "grows maxDepth a b =
     (\<exists>new vis.
        fst b = fst a @ new \<and> visited (snd b) = visited (snd a) @ vis
        \<and> distinct (map packageKey new)
        \<and> packageKey ` set new \<inter> processedPackages (snd a) = {}
        \<and> processedPackages (snd b) = processedPackages (snd a) \<union> packageKey ` set new
        \<and> (\<forall>e \<in> set vis. fst e \<le> maxDepth
              \<and> packageKey (snd (snd e)) \<in> processedPackages (snd b))
        \<and> (\<forall>pkg \<in> set new. \<exists>d path. (d, path, pkg) \<in> set vis))"

section \<open>Example worlds\<close>

text \<open>
  A small registry to run the publisher against. The world is the list of the identities
  published so far. A query for a published identity prints its version; publishing one
  of the two archives below adds the identity its manifest declares, and fails when the
  registry has it already; every other command fails.
\<close>

definition example_registry :: string where
  "example_registry = ''http://127.0.0.1:4873''"

definition example_tarballs :: "(string \<times> string \<times> string) list" where
  "example_tarballs =
     [(''/archives/left-pad-1.0.0.tgz'', ''left-pad'', ''1.0.0''),
      (''/archives/@scope-utils-2.3.4.tgz'', ''@scope/utils'', ''2.3.4'')]"

definition registry_exec ::
  "string \<Rightarrow> string \<Rightarrow> (string \<times> string) list \<Rightarrow> string option \<times> (string \<times> string) list" where
  "registry_exec command dir published =
     (case find (\<lambda>(n, v). command = viewCommand n v example_registry) published of
        Some (n, v) \<Rightarrow> (Some (v @ [CHR 0x0A]), published)
      | None \<Rightarrow>
          (case find (\<lambda>(path, n, v). command = publishCommand path example_registry)
                  example_tarballs of
             Some (path, n, v) \<Rightarrow>
               if (n, v) \<in> set published then (None, published)
               else (Some [], published @ [(n, v)])
           | None \<Rightarrow> (None, published)))"

definition archive_fs :: "string list \<Rightarrow> fs" where
  "archive_fs entries =
     \<lparr>existsSync = (\<lambda>p. p = ''/archives''),
      readdirSync = (\<lambda>p. if p = ''/archives'' then Some entries else None),
      isDirectory = (\<lambda>p. if p = ''/archives'' then Some True else None),
      readJson = (\<lambda>p. None)\<rparr>"

definition registry_host :: "string list \<Rightarrow> (string \<times> string) list host" where
  "registry_host entries =
     \<lparr>files = (\<lambda>w. archive_fs entries), exec = registry_exec, cwd = ''/work'',
      resolve = (\<lambda>p. p), localeCompare = (\<lambda>a b. 0)\<rparr>"

text \<open>The archive directory of the end-to-end example, and the registry it is published
  to: it has \<open>left-pad@1.0.0\<close> and nothing else.\<close>

definition two_archives :: "string list" where
  "two_archives = [''left-pad-1.0.0.tgz'', ''@scope-utils-2.3.4.tgz'']"

definition left_pad_published :: "(string \<times> string) list" where
  "left_pad_published = [(''left-pad'', ''1.0.0'')]"

text \<open>
  A project to run the snapshot script on. Under \<open>/proj/node_modules\<close> are the packages
  \<open>a\<close> and \<open>c\<close>, and \<open>a\<close> has a copy of \<open>c\<close>, same name and version, in a \<open>node_modules\<close> of
  its own. The world is the list of the files created so far; at the start the archive
  of \<open>c\<close> is there. Packing one of the two packages creates its archive in the working
  directory of the command and prints the filename; every other command fails.
\<close>

definition manifest_of :: "string \<Rightarrow> string \<Rightarrow> manifest" where
  "manifest_of n v =
     \<lparr>json_name = Some n, json_version = Some v, json_dependencies = Some [''a'', ''c''],
      json_devDependencies = None, json_peerDependencies = None,
      json_optionalDependencies = None\<rparr>"

definition project_fs :: "string list \<Rightarrow> fs" where
  "project_fs created =
     \<lparr>existsSync = (\<lambda>p. p \<in> set ([''/proj/package.json'', ''/proj/node_modules'',
                                   ''/proj/node_modules/a/node_modules'', ''/proj/pkg''] @ created)),
      readdirSync = (\<lambda>p. if p = ''/proj/node_modules'' then Some [''a'', ''c'']
                         else if p = ''/proj/node_modules/a/node_modules'' then Some [''c'']
                         else None),
      isDirectory = (\<lambda>p. if p \<in> set [''/proj/node_modules/a'', ''/proj/node_modules/c'',
                                       ''/proj/node_modules/a/node_modules/c'']
                         then Some True else None),
      readJson = (\<lambda>p. if p = ''/proj/package.json'' then Some (manifest_of ''proj'' ''0.1.0'')
                      else if p = ''/proj/node_modules/a/package.json''
                      then Some (manifest_of ''a'' ''1.0.0'')
                      else if p \<in> set [''/proj/node_modules/c/package.json'',
                                        ''/proj/node_modules/a/node_modules/c/package.json'']
                      then Some (manifest_of ''c'' ''2.0.0'')
                      else None)\<rparr>"

definition pack_exec :: "string \<Rightarrow> string \<Rightarrow> string list \<Rightarrow> string option \<times> string list" where
  "pack_exec command dir created =
     (case find (\<lambda>(n, v). command = packCommand n v) [(''a'', ''1.0.0''), (''c'', ''2.0.0'')] of
        Some (n, v) \<Rightarrow>
          (Some (n @ ''-'' @ v @ ''.tgz'' @ [CHR 0x0A]),
           created @ [path_join dir (n @ ''-'' @ v @ ''.tgz'')])
      | None \<Rightarrow> (None, created))"

definition project_host :: "string list host" where
  "project_host =
     \<lparr>files = project_fs, exec = pack_exec, cwd = ''/proj'', resolve = (\<lambda>p. p),
      localeCompare = (\<lambda>a b. 0)\<rparr>"

definition c_archived :: "string list" where
  "c_archived = [''/proj/pkg/c-2.0.0.tgz'']"

text \<open>A project with a \<open>package.json\<close> and nothing else: no \<open>node_modules\<close>.\<close>

definition bare_fs :: fs where
  "bare_fs =
     \<lparr>existsSync = (\<lambda>p. p = ''/proj/package.json''),
      readdirSync = (\<lambda>p. None),
      isDirectory = (\<lambda>p. None),
      readJson = (\<lambda>p. if p = ''/proj/package.json'' then Some (manifest_of ''proj'' ''0.1.0'')
                      else None)\<rparr>"

definition bare_host :: "unit host" where
  "bare_host =
     \<lparr>files = (\<lambda>w. bare_fs), exec = (\<lambda>command dir w. (None, w)), cwd = ''/proj'',
      resolve = (\<lambda>p. p), localeCompare = (\<lambda>a b. 0)\<rparr>"

text \<open>
  A tree without end: every path exists and is a directory that lists the one entry
  \<open>a\<close>, and the manifest at a path gives the path as its version, so that no two
  manifests have the same key.
\<close>

definition endless_fs :: fs where
  "endless_fs =
     \<lparr>existsSync = (\<lambda>p. True),
      readdirSync = (\<lambda>p. Some [''a'']),
      isDirectory = (\<lambda>p. Some True),
      readJson = (\<lambda>p. Some (manifest_of ''a'' p))\<rparr>"

text \<open>
  A cycle: \<open>a\<close> depends on \<open>b\<close> and \<open>b\<close> on \<open>a\<close>, and the \<open>a\<close> under \<open>b/node_modules\<close> is a
  link back to \<open>a\<close>. Every path along the cycle exists; what a path shows depends on its
  last directory only.
\<close>

definition cyclic_fs :: fs where
  "cyclic_fs =
     \<lparr>existsSync = (\<lambda>p. True),
      readdirSync = (\<lambda>p. if endsWith p ''/a/node_modules'' then Some [''b''] else Some [''a'']),
      isDirectory = (\<lambda>p. Some True),
      readJson = (\<lambda>p. if endsWith p ''/a/package.json'' then Some (manifest_of ''a'' ''1.0.0'')
                      else Some (manifest_of ''b'' ''1.0.0''))\<rparr>"

section \<open>Properties of the codec\<close>

text \<open>Splitting a string with one pass over it, for evaluation.\<close>

lemma split_on_code [code]:
  "split_on c (x # xs) =
     (if x = c then [] # split_on c xs
      else (case split_on c xs of [] \<Rightarrow> [[x]] | y # ys \<Rightarrow> (x # y) # ys))"
  "split_on c [] = [[]]"
  by (cases "split_on c xs"; cases xs; simp split: if_splits)+

subsection \<open>The matcher recognises the language of the pattern\<close>

lemma not_digit_separators [simp]: "\<not> is_digit CHR ''.''" "\<not> is_digit CHR ''-''"
  by (simp_all add: is_digit_def)

lemma dropWhile_run:
  "list_all P a \<Longrightarrow> (r = [] \<or> \<not> P (hd r)) \<Longrightarrow> dropWhile P (a @ r) = r"
  by (induction a) (auto simp: neq_Nil_conv dropWhile_eq_self_iff)

lemma eat_digits_run:
  "digits a \<Longrightarrow> (r = [] \<or> \<not> is_digit (hd r)) \<Longrightarrow> eat_digits (a @ r) = Some r"
  by (cases a) (auto simp: digits_def eat_digits_def dropWhile_run)

lemma eat_digits_Some:
  assumes "eat_digits s = Some r"
  shows "\<exists>a. digits a \<and> s = a @ r \<and> (r = [] \<or> \<not> is_digit (hd r))"
proof -
  from assms obtain c cs where s: "s = c # cs" and c: "is_digit c"
    and r: "r = dropWhile is_digit cs"
    by (auto simp: eat_digits_def split: list.splits if_splits)
  have "digits (c # takeWhile is_digit cs)"
    using c by (simp add: digits_def list_all_iff) (meson set_takeWhileD)
  moreover have "s = (c # takeWhile is_digit cs) @ r"
    using s r by simp
  moreover have "r = [] \<or> \<not> is_digit (hd r)"
    using r by (metis hd_dropWhile)
  ultimately show ?thesis by blast
qed

lemma eat_char_Some: "eat_char c s = Some r \<longleftrightarrow> s = c # r"
  by (auto simp: eat_char_def split: list.splits)

lemma is_version_iff: "is_version v \<longleftrightarrow> version_like v"
proof
  assume "is_version v"
  then obtain s1 s2 s3 s4 t where
    e1: "eat_digits v = Some s1" and e2: "eat_char CHR ''.'' s1 = Some s2" and
    e3: "eat_digits s2 = Some s3" and e4: "eat_char CHR ''.'' s3 = Some s4" and
    e5: "eat_digits s4 = Some t" and
    t: "t = [] \<or> (\<exists>g. t = CHR ''-'' # g \<and> g \<noteq> [] \<and> list_all is_tag_char g)"
    by (auto simp: is_version_def Option.bind_eq_Some_conv split: option.splits list.splits)
  from eat_digits_Some[OF e1] obtain a where a: "digits a" "v = a @ s1" by blast
  from eat_digits_Some[OF e3] obtain b where b: "digits b" "s2 = b @ s3" by blast
  from eat_digits_Some[OF e5] obtain c where c: "digits c" "s4 = c @ t" by blast
  have "v = a @ ''.'' @ b @ ''.'' @ c @ t"
    using a b c e2 e4 by (simp add: eat_char_Some)
  with a b c t show "version_like v"
    unfolding version_like_def
    by (intro exI[of _ a] exI[of _ b] exI[of _ c] exI[of _ t]) simp
next
  assume "version_like v"
  then obtain a b c t where v: "v = a @ ''.'' @ b @ ''.'' @ c @ t" and
    d: "digits a" "digits b" "digits c" and
    t: "t = [] \<or> (\<exists>g. t = ''-'' @ g \<and> g \<noteq> [] \<and> list_all is_tag_char g)"
    unfolding version_like_def by blast
  have 1: "eat_digits v = Some (''.'' @ b @ ''.'' @ c @ t)"
    unfolding v by (rule eat_digits_run[OF d(1)]) simp
  have 2: "eat_digits (b @ ''.'' @ c @ t) = Some (''.'' @ c @ t)"
    by (rule eat_digits_run[OF d(2)]) simp
  have 3: "eat_digits (c @ t) = Some t"
    by (rule eat_digits_run[OF d(3)]) (use t in auto)
  show "is_version v"
    using 1 2 3 t by (auto simp: is_version_def eat_char_def)
qed

subsection \<open>The search finds the first hyphen that starts a version\<close>

lemma endsWith_append [simp]: "endsWith (s @ t) t"
  by (simp add: endsWith_def)

lemma strip_tgz_append [simp]: "strip_tgz (s @ ''.tgz'') = s"
  by (simp add: strip_tgz_def)

lemma versionMatch_Some:
  "versionMatch s = Some v \<Longrightarrow> \<exists>n. s = n @ ''-'' @ v \<and> is_version v"
proof (induction s)
  case Nil
  then show ?case by simp
next
  case (Cons c cs)
  show ?case
  proof (cases "c = CHR ''-'' \<and> is_version cs")
    case True
    with Cons.prems have "v = cs" by simp
    with True show ?thesis by (intro exI[of _ "[]"]) simp
  next
    case False
    with Cons.prems have "versionMatch cs = Some v" by auto
    from Cons.IH[OF this] obtain n where "cs = n @ ''-'' @ v" "is_version v" by blast
    then show ?thesis by (intro exI[of _ "c # n"]) simp
  qed
qed

lemma versionMatch_longest:
  "is_version v \<Longrightarrow>
   \<exists>w. versionMatch (n @ ''-'' @ v) = Some w
        \<and> (\<exists>x. w = x @ v \<and> (x = [] \<or> (\<exists>y. x = y @ ''-'')))"
proof (induction n)
  case Nil
  then show ?case by simp
next
  case (Cons c n)
  show ?case
  proof (cases "c = CHR ''-'' \<and> is_version (n @ ''-'' @ v)")
    case True
    then have "versionMatch ((c # n) @ ''-'' @ v) = Some (n @ ''-'' @ v)" by simp
    moreover have "n @ ''-'' @ v = (n @ ''-'') @ v" by simp
    ultimately show ?thesis by blast
  next
    case False
    then have "versionMatch ((c # n) @ ''-'' @ v) = versionMatch (n @ ''-'' @ v)" by auto
    with Cons show ?thesis by simp
  qed
qed

lemma versionMatch_None:
  "versionMatch s = None \<longleftrightarrow> \<not> (\<exists>n v. s = n @ ''-'' @ v \<and> is_version v)"
proof
  assume none: "versionMatch s = None"
  show "\<not> (\<exists>n v. s = n @ ''-'' @ v \<and> is_version v)"
  proof
    assume "\<exists>n v. s = n @ ''-'' @ v \<and> is_version v"
    then obtain n v where "s = n @ ''-'' @ v" "is_version v" by blast
    with versionMatch_longest[of v n] none show False by auto
  qed
next
  assume "\<not> (\<exists>n v. s = n @ ''-'' @ v \<and> is_version v)"
  then show "versionMatch s = None"
    using versionMatch_Some[of s] by (cases "versionMatch s") auto
qed

subsection \<open>Splitting and joining\<close>

lemma split_on_hd: "hd (split_on c s) = takeWhile (\<lambda>x. x \<noteq> c) s"
  by (induction s) auto

lemma split_on_not_Nil [simp]: "split_on c s \<noteq> []"
  by (induction s) auto

lemma split_on_length: "length (split_on c s) = Suc (length (filter (\<lambda>x. x = c) s))"
  by (induction s) auto

lemma join_split: "join_with [c] (split_on c s) = s"
proof (induction s)
  case Nil
  then show ?case by simp
next
  case (Cons x xs)
  obtain p ps where "split_on c xs = p # ps"
    by (cases "split_on c xs") auto
  with Cons show ?case by (cases ps) auto
qed

lemma join_tl_split:
  "c \<in> set s \<Longrightarrow> join_with [c] (tl (split_on c s)) = tl (dropWhile (\<lambda>x. x \<noteq> c) s)"
  by (induction s) (auto simp: join_split)

lemma replace_first_absent: "c \<notin> set s \<Longrightarrow> replace_first c r s = s"
  by (induction s) auto

subsection \<open>The decoder and the encoder\<close>

lemma extractPackageInfo_version:
  "extractPackageInfo f = Some info \<Longrightarrow> versionMatch (strip_tgz f) = Some (version info)"
  by (auto simp: extractPackageInfo_def Let_def split: option.splits)

lemma extractPackageInfo_None:
  "extractPackageInfo f = None \<longleftrightarrow> versionMatch (strip_tgz f) = None"
  by (auto simp: extractPackageInfo_def Let_def split: option.splits)

lemma extractPackageInfo_eq:
  "versionMatch (strip_tgz f) = Some v \<Longrightarrow>
   extractPackageInfo f = Some \<lparr>name =
     (let nwh = take (length (strip_tgz f) - length v - 1) (strip_tgz f) in
        if includes_char nwh CHR ''-''
        then (if length (split_on CHR ''-'' nwh) \<ge> 2
                 \<and> \<not> includes_char (hd (split_on CHR ''-'' nwh)) CHR ''.''
              then ''@'' @ hd (split_on CHR ''-'' nwh) @ ''/''
                     @ join_with ''-'' (tl (split_on CHR ''-'' nwh))
              else nwh)
        else nwh), version = v\<rparr>"
  by (simp add: extractPackageInfo_def Let_def)

lemma name_of_eq: "info = \<lparr>name = a, version = b\<rparr> \<Longrightarrow> name info = a"
  by simp

lemma candidates_suffix:
  "c \<in> set (getPossiblePackageFilenames n v) \<Longrightarrow> \<exists>p. c = p @ ''-'' @ v @ ''.tgz''"
  by (auto simp: getPossiblePackageFilenames_def Let_def)

lemma split_on_absent: "c \<notin> set s \<Longrightarrow> split_on c s = [s]"
  by (induction s) auto

lemma split_on_first: "c \<notin> set a \<Longrightarrow> split_on c (a @ c # b) = a # split_on c b"
  by (induction a) auto

lemma replace_first_first: "c \<notin> set a \<Longrightarrow> replace_first c r (a @ c # b) = a @ r @ b"
  by (induction a) auto

lemma first_rest:
  "c \<in> set n \<Longrightarrow> takeWhile (\<lambda>x. x \<noteq> c) n @ c # tl (dropWhile (\<lambda>x. x \<noteq> c) n) = n"
  by (induction n) auto

lemma versionMatch_exact:
  assumes "is_version v"
  shows "versionMatch (n @ ''-'' @ v) = Some v
           \<longleftrightarrow> \<not> (\<exists>x y. n = x @ ''-'' @ y \<and> is_version (y @ ''-'' @ v))"
proof
  assume e: "versionMatch (n @ ''-'' @ v) = Some v"
  show "\<not> (\<exists>x y. n = x @ ''-'' @ y \<and> is_version (y @ ''-'' @ v))"
  proof
    assume "\<exists>x y. n = x @ ''-'' @ y \<and> is_version (y @ ''-'' @ v)"
    then obtain x y where n: "n = x @ ''-'' @ y" and iv: "is_version (y @ ''-'' @ v)"
      by blast
    from versionMatch_longest[OF iv, of x] n e
    obtain z where "v = z @ y @ ''-'' @ v" by auto
    then have "length v = length (z @ y @ ''-'' @ v)" by simp
    then show False by simp
  qed
next
  assume u: "\<not> (\<exists>x y. n = x @ ''-'' @ y \<and> is_version (y @ ''-'' @ v))"
  from versionMatch_longest[OF assms, of n] obtain w x where
    w: "versionMatch (n @ ''-'' @ v) = Some w" and
    x: "w = x @ v" "x = [] \<or> (\<exists>y. x = y @ ''-'')"
    by blast
  from x(2) show "versionMatch (n @ ''-'' @ v) = Some v"
  proof
    assume "x = []"
    with w x(1) show ?thesis by simp
  next
    assume "\<exists>y. x = y @ ''-''"
    then obtain y where y: "x = y @ ''-''" by blast
    from versionMatch_Some[OF w] obtain m where m: "n @ ''-'' @ v = m @ ''-'' @ w"
      and iw: "is_version w" by blast
    from m x(1) y have "n = m @ ''-'' @ y" by simp
    moreover from iw x(1) y have "is_version (y @ ''-'' @ v)" by simp
    ultimately show ?thesis using u by blast
  qed
qed

lemma extractPackageInfo_name:
  assumes w: "versionMatch (strip_tgz f) = Some v"
    and b: "strip_tgz f = nwh @ ''-'' @ v"
  shows "extractPackageInfo f = Some \<lparr>name =
     (if CHR ''-'' \<in> set nwh \<and> CHR ''.'' \<notin> set (takeWhile (\<lambda>c. c \<noteq> CHR ''-'') nwh)
      then ''@'' @ takeWhile (\<lambda>c. c \<noteq> CHR ''-'') nwh @ ''/''
             @ tl (dropWhile (\<lambda>c. c \<noteq> CHR ''-'') nwh)
      else nwh), version = v\<rparr>"
proof -
  have tk: "take (length (strip_tgz f) - length v - 1) (strip_tgz f) = nwh"
    by (subst b, subst b) simp
  have len: "CHR ''-'' \<in> set nwh \<Longrightarrow> 2 \<le> length (split_on CHR ''-'' nwh)"
    by (simp add: split_on_length filter_empty_conv Suc_le_eq)
  have j: "CHR ''-'' \<in> set nwh \<Longrightarrow>
      join_with ''-'' (tl (split_on CHR ''-'' nwh)) = tl (dropWhile (\<lambda>c. c \<noteq> CHR ''-'') nwh)"
    using join_tl_split[of "CHR ''-''" nwh] by simp
  show ?thesis
    unfolding extractPackageInfo_eq[OF w] tk
    using len j by (simp add: includes_char_def split_on_hd)
qed

lemma candidates_of_decoded:
  assumes at: "CHR ''@'' \<notin> set n" and sl: "CHR ''/'' \<notin> set n"
  shows "getPossiblePackageFilenames
           (if CHR ''-'' \<in> set n \<and> CHR ''.'' \<notin> set (takeWhile (\<lambda>c. c \<noteq> CHR ''-'') n)
            then ''@'' @ takeWhile (\<lambda>c. c \<noteq> CHR ''-'') n @ ''/''
                   @ tl (dropWhile (\<lambda>c. c \<noteq> CHR ''-'') n)
            else n) v
         = [n @ ''-'' @ v @ ''.tgz'',
            (if CHR ''-'' \<in> set n \<and> CHR ''.'' \<notin> set (takeWhile (\<lambda>c. c \<noteq> CHR ''-'') n)
             then tl (dropWhile (\<lambda>c. c \<noteq> CHR ''-'') n) else n) @ ''-'' @ v @ ''.tgz'',
            n @ ''-'' @ v @ ''.tgz'']"
proof (cases "CHR ''-'' \<in> set n \<and> CHR ''.'' \<notin> set (takeWhile (\<lambda>c. c \<noteq> CHR ''-'') n)")
  case False
  then have c: "(if CHR ''-'' \<in> set n \<and> CHR ''.'' \<notin> set (takeWhile (\<lambda>c. c \<noteq> CHR ''-'') n)
                 then X else n) = n" for X :: string
    by (rule if_not_P)
  show ?thesis
    unfolding c using at sl
    by (simp add: getPossiblePackageFilenames_def Let_def includes_char_def replace_first_absent)
next
  case True
  let ?first = "takeWhile (\<lambda>c. c \<noteq> CHR ''-'') n"
  let ?rest = "tl (dropWhile (\<lambda>c. c \<noteq> CHR ''-'') n)"
  from True have n: "?first @ CHR ''-'' # ?rest = n"
    by (simp add: first_rest)
  have f: "CHR ''/'' \<notin> set ?first" "CHR ''@'' \<notin> set ?first"
    using sl at by (auto dest: set_takeWhileD)
  have r: "CHR ''/'' \<notin> set ?rest"
    using sl n by (metis Un_iff list.set_intros(2) set_append)
  have 1: "replace_first CHR ''/'' ''-'' (?first @ CHR ''/'' # ?rest) = n"
    using replace_first_first[OF f(1), of "''-''" ?rest] n by simp
  have 2: "split_on CHR ''/'' ((CHR ''@'' # ?first) @ CHR ''/'' # ?rest) = [CHR ''@'' # ?first, ?rest]"
    using split_on_first[of "CHR ''/''" "CHR ''@'' # ?first" ?rest] f(1) r
    by (simp add: split_on_absent)
  from True 1 2 show ?thesis
    by (simp add: getPossiblePackageFilenames_def Let_def includes_char_def)
qed

text \<open>
  Claim C3, as the code has it. Take any name \<open>n\<close> and any version \<open>v\<close> of the pattern, and
  the filename \<open>n-v.tgz\<close>. The decoder accepts it, and the version it returns is \<open>v\<close>
  exactly when no hyphen of \<open>n\<close> is followed by a text that, continued with \<open>-v\<close>, is
  again of the pattern (the pattern is matched at the first hyphen where it fits). When
  that is so and \<open>n\<close> has neither an \<open>@\<close> nor a \<open>/\<close>, the encoder makes three filenames of the
  decoded identity, the first of them the filename that was decoded, and the decoder reads
  each of the three with the version \<open>v\<close>.
\<close>

theorem version_roundtrip:
  assumes "version_like v"
  shows "\<exists>info. extractPackageInfo (n @ ''-'' @ v @ ''.tgz'') = Some info
    \<and> (version info = v \<longleftrightarrow> \<not> (\<exists>x y. n = x @ ''-'' @ y \<and> version_like (y @ ''-'' @ v)))
    \<and> (\<not> (\<exists>x y. n = x @ ''-'' @ y \<and> version_like (y @ ''-'' @ v))
         \<and> CHR ''@'' \<notin> set n \<and> CHR ''/'' \<notin> set n
       \<longrightarrow> length (getPossiblePackageFilenames (name info) (version info)) = 3
         \<and> hd (getPossiblePackageFilenames (name info) (version info)) = n @ ''-'' @ v @ ''.tgz''
         \<and> list_all (\<lambda>c. \<exists>i. extractPackageInfo c = Some i \<and> version i = v)
              (getPossiblePackageFilenames (name info) (version info)))"
proof -
  let ?f = "n @ ''-'' @ v @ ''.tgz''"
  let ?u = "\<lambda>n. \<not> (\<exists>x y. n = x @ ''-'' @ y \<and> version_like (y @ ''-'' @ v))"
  have s: "strip_tgz (m @ ''-'' @ v @ ''.tgz'') = m @ ''-'' @ v" for m
    using strip_tgz_append[of "m @ ''-'' @ v"] by simp
  from assms have iv: "is_version v"
    by (simp add: is_version_iff)
  have dec: "\<exists>i. extractPackageInfo (m @ ''-'' @ v @ ''.tgz'') = Some i \<and> version i = v"
    if "?u m" for m
  proof -
    from that versionMatch_exact[OF iv, of m]
    have "versionMatch (m @ ''-'' @ v) = Some v"
      by (simp add: is_version_iff)
    then have "versionMatch (strip_tgz (m @ ''-'' @ v @ ''.tgz'')) = Some v"
      unfolding s .
    from extractPackageInfo_name[OF this s] show ?thesis by simp
  qed
  from versionMatch_longest[OF iv, of n] obtain w where
    w0: "versionMatch (n @ ''-'' @ v) = Some w"
    by blast
  then have w: "versionMatch (strip_tgz ?f) = Some w"
    unfolding s .
  from versionMatch_Some[OF w] obtain nwh where nwh: "strip_tgz ?f = nwh @ ''-'' @ w"
    by blast
  note info = extractPackageInfo_name[OF w nwh]
  have a: "w = v \<longleftrightarrow> ?u n"
    using versionMatch_exact[OF iv, of n] w0 by (auto simp: is_version_iff)
  have b: "length (getPossiblePackageFilenames nm w) = 3
         \<and> hd (getPossiblePackageFilenames nm w) = n @ ''-'' @ v @ ''.tgz''
         \<and> list_all (\<lambda>c. \<exists>i. extractPackageInfo c = Some i \<and> version i = v)
              (getPossiblePackageFilenames nm w)"
    if u: "?u n" and at: "CHR ''@'' \<notin> set n" and sl: "CHR ''/'' \<notin> set n"
      and nm: "nm = (if CHR ''-'' \<in> set nwh
                        \<and> CHR ''.'' \<notin> set (takeWhile (\<lambda>c. c \<noteq> CHR ''-'') nwh)
                     then ''@'' @ takeWhile (\<lambda>c. c \<noteq> CHR ''-'') nwh @ ''/''
                            @ tl (dropWhile (\<lambda>c. c \<noteq> CHR ''-'') nwh)
                     else nwh)" for nm
  proof -
    from a u have wv: "w = v" by simp
    with nwh[unfolded s] have nn: "nwh = n" by simp
    let ?rest = "tl (dropWhile (\<lambda>c. c \<noteq> CHR ''-'') n)"
    have ur: "?u ?rest" if h: "CHR ''-'' \<in> set n"
    proof
      assume "\<exists>x y. ?rest = x @ ''-'' @ y \<and> version_like (y @ ''-'' @ v)"
      then obtain x y where r: "?rest = x @ ''-'' @ y" and vl: "version_like (y @ ''-'' @ v)"
        by blast
      from first_rest[OF h] r
      have "n = (takeWhile (\<lambda>c. c \<noteq> CHR ''-'') n @ ''-'' @ x) @ ''-'' @ y"
        by simp
      with vl u show False by blast
    qed
    have c2: "\<exists>i. extractPackageInfo
                 ((if CHR ''-'' \<in> set n \<and> CHR ''.'' \<notin> set (takeWhile (\<lambda>c. c \<noteq> CHR ''-'') n)
                   then ?rest else n) @ ''-'' @ v @ ''.tgz'') = Some i \<and> version i = v"
      using dec[OF u] dec[OF ur] by simp
    show ?thesis
      unfolding nm nn wv candidates_of_decoded[OF at sl]
      using dec[OF u] c2 by simp
  qed
  show ?thesis
    unfolding info using a b by simp
qed

lemma version_like_example: "version_like ''1.0.0''"
  by (simp add: is_version_iff[symmetric] is_version_def eat_digits_def eat_char_def
      is_digit_def)

text \<open>
  Where the round trip loses the version. In \<open>lib-1.2.3-4.5.6.tgz\<close> the pattern fits at the
  first hyphen, so the name \<open>lib-1.2.3\<close> with the version \<open>4.5.6\<close> is decoded with the version
  \<open>1.2.3-4.5.6\<close>. And \<open>a.b-@1.2.3-4.5.6.tgz\<close> is decoded with the version \<open>4.5.6\<close>, but the
  encoder drops the \<open>@\<close> of the name, and the filename it makes is decoded with the version
  \<open>1.2.3-4.5.6\<close>.
\<close>

theorem version_roundtrip_counterexample:
  "version_like ''4.5.6''
   \<and> extractPackageInfo (''lib-1.2.3'' @ ''-'' @ ''4.5.6'' @ ''.tgz'')
       = Some \<lparr>name = ''lib'', version = ''1.2.3-4.5.6''\<rparr>
   \<and> ''1.2.3-4.5.6'' \<noteq> ''4.5.6''
   \<and> getPossiblePackageFilenames ''lib'' ''1.2.3-4.5.6''
       = [''lib-1.2.3-4.5.6.tgz'', ''lib-1.2.3-4.5.6.tgz'', ''lib-1.2.3-4.5.6.tgz'']
   \<and> extractPackageInfo (''a.b-@1.2.3'' @ ''-'' @ ''4.5.6'' @ ''.tgz'')
       = Some \<lparr>name = ''a.b-@1.2.3'', version = ''4.5.6''\<rparr>
   \<and> hd (getPossiblePackageFilenames ''a.b-@1.2.3'' ''4.5.6'') = ''a.b-1.2.3-4.5.6.tgz''
   \<and> extractPackageInfo ''a.b-1.2.3-4.5.6.tgz''
       = Some \<lparr>name = ''a.b'', version = ''1.2.3-4.5.6''\<rparr>"
proof -
  have 0: "version_like ''4.5.6''"
    by (simp add: is_version_iff[symmetric] is_version_def eat_digits_def eat_char_def
      is_digit_def)
  have 1: "extractPackageInfo (''lib-1.2.3'' @ ''-'' @ ''4.5.6'' @ ''.tgz'')
       = Some \<lparr>name = ''lib'', version = ''1.2.3-4.5.6''\<rparr>"
    by code_simp
  have 2: "getPossiblePackageFilenames ''lib'' ''1.2.3-4.5.6''
       = [''lib-1.2.3-4.5.6.tgz'', ''lib-1.2.3-4.5.6.tgz'', ''lib-1.2.3-4.5.6.tgz'']"
    by code_simp
  have 3: "extractPackageInfo (''a.b-@1.2.3'' @ ''-'' @ ''4.5.6'' @ ''.tgz'')
       = Some \<lparr>name = ''a.b-@1.2.3'', version = ''4.5.6''\<rparr>"
    by code_simp
  have 4: "hd (getPossiblePackageFilenames ''a.b-@1.2.3'' ''4.5.6'') = ''a.b-1.2.3-4.5.6.tgz''"
    by code_simp
  have 5: "extractPackageInfo ''a.b-1.2.3-4.5.6.tgz''
       = Some \<lparr>name = ''a.b'', version = ''1.2.3-4.5.6''\<rparr>"
    by code_simp
  from 0 1 2 3 4 5 show ?thesis by simp
qed

theorem version_roundtrip_witness:
  "version_like ''1.0.0''
   \<and> \<not> (\<exists>x y. ''left-pad'' = x @ ''-'' @ y \<and> version_like (y @ ''-'' @ ''1.0.0''))
   \<and> CHR ''@'' \<notin> set ''left-pad'' \<and> CHR ''/'' \<notin> set ''left-pad''
   \<and> extractPackageInfo ''left-pad-1.0.0.tgz'' = Some \<lparr>name = ''@left/pad'', version = ''1.0.0''\<rparr>
   \<and> getPossiblePackageFilenames ''@left/pad'' ''1.0.0''
       = [''left-pad-1.0.0.tgz'', ''pad-1.0.0.tgz'', ''left-pad-1.0.0.tgz'']
   \<and> extractPackageInfo ''pad-1.0.0.tgz'' = Some \<lparr>name = ''pad'', version = ''1.0.0''\<rparr>
   \<and> list_all (\<lambda>c. \<exists>i. extractPackageInfo c = Some i \<and> version i = ''1.0.0'')
        (getPossiblePackageFilenames ''@left/pad'' ''1.0.0'')"
proof -
  have 1: "extractPackageInfo ''left-pad-1.0.0.tgz''
             = Some \<lparr>name = ''@left/pad'', version = ''1.0.0''\<rparr>"
    by code_simp
  have 2: "getPossiblePackageFilenames ''@left/pad'' ''1.0.0''
             = [''left-pad-1.0.0.tgz'', ''pad-1.0.0.tgz'', ''left-pad-1.0.0.tgz'']"
    by code_simp
  have 3: "extractPackageInfo ''pad-1.0.0.tgz'' = Some \<lparr>name = ''pad'', version = ''1.0.0''\<rparr>"
    by code_simp
  from version_roundtrip[OF version_like_example, of "''left-pad''"] 1
  have 4: "\<not> (\<exists>x y. ''left-pad'' = x @ ''-'' @ y \<and> version_like (y @ ''-'' @ ''1.0.0''))"
    by simp
  have 5: "CHR ''@'' \<notin> set ''left-pad'' \<and> CHR ''/'' \<notin> set ''left-pad''"
    by simp
  from version_roundtrip[OF version_like_example, of "''left-pad''"] 1 4 5
  have 6: "list_all (\<lambda>c. \<exists>i. extractPackageInfo c = Some i \<and> version i = ''1.0.0'')
        (getPossiblePackageFilenames ''@left/pad'' ''1.0.0'')"
    by simp
  from version_like_example 1 2 3 4 5 6 show ?thesis by blast
qed

text \<open>
  Claim C4. The decoder returns no result exactly when the base name (the filename
  without a final \<open>.tgz\<close>) does not end with a hyphen and a version of the pattern. When
  it returns an identity, the base name is a name-with-hyphen form, a hyphen and the
  decoded version, which is of the pattern and is the longest such ending; and the name is
  \<open>@first/rest\<close> when the name-with-hyphen form has a hyphen and no period before its
  first hyphen (\<open>first\<close> being what stands before that hyphen, \<open>rest\<close> what stands after
  it), and the name-with-hyphen form itself otherwise.
\<close>

theorem decoder_cases:
  "(extractPackageInfo f = None
      \<longleftrightarrow> \<not> (\<exists>n v. strip_tgz f = n @ ''-'' @ v \<and> version_like v))
   \<and> (\<forall>info. extractPackageInfo f = Some info \<longrightarrow>
        (\<exists>nameWithHyphen. strip_tgz f = nameWithHyphen @ ''-'' @ version info
           \<and> version_like (version info)
           \<and> (\<forall>n v. strip_tgz f = n @ ''-'' @ v \<and> version_like v
                  \<longrightarrow> length v \<le> length (version info))
           \<and> name info =
               (if CHR ''-'' \<in> set nameWithHyphen
                   \<and> CHR ''.'' \<notin> set (takeWhile (\<lambda>c. c \<noteq> CHR ''-'') nameWithHyphen)
                then ''@'' @ takeWhile (\<lambda>c. c \<noteq> CHR ''-'') nameWithHyphen @ ''/''
                       @ tl (dropWhile (\<lambda>c. c \<noteq> CHR ''-'') nameWithHyphen)
                else nameWithHyphen)))"
proof (intro conjI allI impI)
  show "extractPackageInfo f = None
          \<longleftrightarrow> \<not> (\<exists>n v. strip_tgz f = n @ ''-'' @ v \<and> version_like v)"
    by (simp add: extractPackageInfo_None versionMatch_None is_version_iff)
next
  fix info
  assume info: "extractPackageInfo f = Some info"
  let ?b = "strip_tgz f"
  from extractPackageInfo_version[OF info]
  have w: "versionMatch ?b = Some (version info)" .
  from versionMatch_Some[OF w] obtain nwh where
    b: "?b = nwh @ ''-'' @ version info" and iv: "is_version (version info)"
    by blast
  have tk: "take (length ?b - length (version info) - 1) ?b = nwh"
    by (subst b, subst b) simp
  have longest: "length v \<le> length (version info)"
    if "?b = n @ ''-'' @ v \<and> version_like v" for n v
  proof -
    from that have "is_version v"
      by (simp add: is_version_iff)
    from versionMatch_longest[OF this, of n] that w
    obtain x where "version info = x @ v" by auto
    then show ?thesis by simp
  qed
  have nm: "name info =
     (if CHR ''-'' \<in> set nwh \<and> CHR ''.'' \<notin> set (takeWhile (\<lambda>c. c \<noteq> CHR ''-'') nwh)
      then ''@'' @ takeWhile (\<lambda>c. c \<noteq> CHR ''-'') nwh @ ''/''
             @ tl (dropWhile (\<lambda>c. c \<noteq> CHR ''-'') nwh)
      else nwh)"
  proof -
    have len: "CHR ''-'' \<in> set nwh \<Longrightarrow> 2 \<le> length (split_on CHR ''-'' nwh)"
      by (simp add: split_on_length filter_empty_conv Suc_le_eq)
    have j: "CHR ''-'' \<in> set nwh \<Longrightarrow>
        join_with ''-'' (tl (split_on CHR ''-'' nwh)) = tl (dropWhile (\<lambda>c. c \<noteq> CHR ''-'') nwh)"
      using join_tl_split[of "CHR ''-''" nwh] by simp
    have "info = \<lparr>name =
        (if includes_char nwh CHR ''-''
         then (if length (split_on CHR ''-'' nwh) \<ge> 2
                  \<and> \<not> includes_char (hd (split_on CHR ''-'' nwh)) CHR ''.''
               then ''@'' @ hd (split_on CHR ''-'' nwh) @ ''/''
                      @ join_with ''-'' (tl (split_on CHR ''-'' nwh))
               else nwh)
         else nwh), version = version info\<rparr>"
      using extractPackageInfo_eq[OF w] info tk by simp
    then have "name info =
        (if includes_char nwh CHR ''-''
         then (if length (split_on CHR ''-'' nwh) \<ge> 2
                  \<and> \<not> includes_char (hd (split_on CHR ''-'' nwh)) CHR ''.''
               then ''@'' @ hd (split_on CHR ''-'' nwh) @ ''/''
                      @ join_with ''-'' (tl (split_on CHR ''-'' nwh))
               else nwh)
         else nwh)"
      by (rule name_of_eq)
    then show ?thesis
      using len j by (simp add: includes_char_def split_on_hd)
  qed
  show "\<exists>nameWithHyphen. strip_tgz f = nameWithHyphen @ ''-'' @ version info
           \<and> version_like (version info)
           \<and> (\<forall>n v. strip_tgz f = n @ ''-'' @ v \<and> version_like v
                  \<longrightarrow> length v \<le> length (version info))
           \<and> name info =
               (if CHR ''-'' \<in> set nameWithHyphen
                   \<and> CHR ''.'' \<notin> set (takeWhile (\<lambda>c. c \<noteq> CHR ''-'') nameWithHyphen)
                then ''@'' @ takeWhile (\<lambda>c. c \<noteq> CHR ''-'') nameWithHyphen @ ''/''
                       @ tl (dropWhile (\<lambda>c. c \<noteq> CHR ''-'') nameWithHyphen)
                else nameWithHyphen)"
    using b iv longest nm by (intro exI[of _ nwh]) (simp add: is_version_iff)
qed

theorem decoder_cases_witness:
  "extractPackageInfo ''left-pad-1.0.0.tgz'' = Some \<lparr>name = ''@left/pad'', version = ''1.0.0''\<rparr>
   \<and> (\<exists>nameWithHyphen. strip_tgz ''left-pad-1.0.0.tgz'' = nameWithHyphen @ ''-'' @ ''1.0.0''
         \<and> version_like ''1.0.0''
         \<and> ''@left/pad'' =
               (if CHR ''-'' \<in> set nameWithHyphen
                   \<and> CHR ''.'' \<notin> set (takeWhile (\<lambda>c. c \<noteq> CHR ''-'') nameWithHyphen)
                then ''@'' @ takeWhile (\<lambda>c. c \<noteq> CHR ''-'') nameWithHyphen @ ''/''
                       @ tl (dropWhile (\<lambda>c. c \<noteq> CHR ''-'') nameWithHyphen)
                else nameWithHyphen))
   \<and> extractPackageInfo ''socket.io-client-4.0.0.tgz''
       = Some \<lparr>name = ''socket.io-client'', version = ''4.0.0''\<rparr>
   \<and> extractPackageInfo ''readme.tgz'' = None
   \<and> \<not> (\<exists>n v. strip_tgz ''readme.tgz'' = n @ ''-'' @ v \<and> version_like v)"
proof -
  have 1: "extractPackageInfo ''socket.io-client-4.0.0.tgz''
             = Some \<lparr>name = ''socket.io-client'', version = ''4.0.0''\<rparr>"
    by (simp add: extractPackageInfo_def strip_tgz_def endsWith_def is_version_def
        eat_digits_def eat_char_def is_digit_def is_tag_char_def includes_char_def)
  have 2: "extractPackageInfo ''left-pad-1.0.0.tgz''
             = Some \<lparr>name = ''@left/pad'', version = ''1.0.0''\<rparr>"
    by (simp add: extractPackageInfo_def strip_tgz_def endsWith_def is_version_def
        eat_digits_def eat_char_def is_digit_def is_tag_char_def includes_char_def)
  have 3: "extractPackageInfo ''readme.tgz'' = None"
    by (simp add: extractPackageInfo_def strip_tgz_def endsWith_def is_version_def
        eat_digits_def eat_char_def is_digit_def is_tag_char_def includes_char_def)
  from decoder_cases[of "''readme.tgz''"] 3
  have 4: "\<not> (\<exists>n v. strip_tgz ''readme.tgz'' = n @ ''-'' @ v \<and> version_like v)"
    by simp
  from decoder_cases[of "''left-pad-1.0.0.tgz''"] 2
  have 5: "\<exists>nameWithHyphen. strip_tgz ''left-pad-1.0.0.tgz'' = nameWithHyphen @ ''-'' @ ''1.0.0''
         \<and> version_like ''1.0.0''
         \<and> ''@left/pad'' =
               (if CHR ''-'' \<in> set nameWithHyphen
                   \<and> CHR ''.'' \<notin> set (takeWhile (\<lambda>c. c \<noteq> CHR ''-'') nameWithHyphen)
                then ''@'' @ takeWhile (\<lambda>c. c \<noteq> CHR ''-'') nameWithHyphen @ ''/''
                       @ tl (dropWhile (\<lambda>c. c \<noteq> CHR ''-'') nameWithHyphen)
                else nameWithHyphen)"
    by fastforce
  from 1 2 3 4 5 show ?thesis by blast
qed

text \<open>
  A base name can end with a version of the pattern and still have no result: the pattern
  of the decoder starts with the hyphen that separates the name from the version, and
  \<open>v1.2.3\<close> and \<open>1.2.3\<close> have none.
\<close>

theorem decoder_cases_counterexample:
  "extractPackageInfo ''v1.2.3.tgz'' = None
   \<and> strip_tgz ''v1.2.3.tgz'' = ''v'' @ ''1.2.3''
   \<and> version_like ''1.2.3''
   \<and> extractPackageInfo ''1.2.3.tgz'' = None
   \<and> strip_tgz ''1.2.3.tgz'' = '''' @ ''1.2.3''"
proof -
  have 1: "extractPackageInfo ''v1.2.3.tgz'' = None"
    by code_simp
  have 2: "strip_tgz ''v1.2.3.tgz'' = ''v'' @ ''1.2.3''"
    by code_simp
  have 3: "version_like ''1.2.3''"
    by (simp add: is_version_iff[symmetric] is_version_def eat_digits_def eat_char_def
      is_digit_def)
  have 4: "extractPackageInfo ''1.2.3.tgz'' = None"
    by code_simp
  have 5: "strip_tgz ''1.2.3.tgz'' = '''' @ ''1.2.3''"
    by code_simp
  from 1 2 3 4 5 show ?thesis by simp
qed

text \<open>
  Claim C10. For every name and version the encoder returns three filenames, the first
  and the third the same string, so at most two different ones; and one only for a name
  with no scope (neither an \<open>@\<close> nor a \<open>/\<close> in it).
\<close>

theorem encoder_candidates:
  "length (getPossiblePackageFilenames n v) = 3
   \<and> getPossiblePackageFilenames n v ! 0 = getPossiblePackageFilenames n v ! 2
   \<and> card (set (getPossiblePackageFilenames n v)) \<le> 2
   \<and> (CHR ''@'' \<notin> set n \<and> CHR ''/'' \<notin> set n
        \<longrightarrow> card (set (getPossiblePackageFilenames n v)) = 1)"
proof -
  have e: "{a, b, a} = {a, b}" for a b :: string
    by auto
  have "card {a, b} \<le> 2" for a b :: string
    by (simp add: card_insert_if)
  then show ?thesis
    by (simp add: getPossiblePackageFilenames_def Let_def includes_char_def
        replace_first_absent e)
qed

theorem encoder_candidates_witness:
  "CHR ''@'' \<notin> set ''left-pad'' \<and> CHR ''/'' \<notin> set ''left-pad''
   \<and> card (set (getPossiblePackageFilenames ''left-pad'' ''1.0.0'')) = 1
   \<and> getPossiblePackageFilenames ''@scope/utils'' ''2.3.4''
       = [''scope-utils-2.3.4.tgz'', ''utils-2.3.4.tgz'', ''scope-utils-2.3.4.tgz'']"
proof -
  have a: "CHR ''@'' \<notin> set ''left-pad'' \<and> CHR ''/'' \<notin> set ''left-pad''"
    by simp
  with encoder_candidates[of "''left-pad''" "''1.0.0''"]
  have "card (set (getPossiblePackageFilenames ''left-pad'' ''1.0.0'')) = 1"
    by blast
  moreover have "getPossiblePackageFilenames ''@scope/utils'' ''2.3.4''
       = [''scope-utils-2.3.4.tgz'', ''utils-2.3.4.tgz'', ''scope-utils-2.3.4.tgz'']"
    by (simp add: getPossiblePackageFilenames_def includes_char_def)
  ultimately show ?thesis using a by blast
qed

section \<open>Properties of the publisher\<close>

subsection \<open>Traces\<close>

lemma executed_append [simp]: "executed (a @ b) = executed a @ executed b"
  by (induction a rule: executed.induct) auto

lemma written_append [simp]: "written (a @ b) = written a @ written b"
  by (induction a rule: written.induct) auto

lemma log_simps [simp]:
  "world (log m b st) = world st"
  "executed (trace (log m b st)) = executed (trace st)"
  "written (trace (log m b st)) = written (trace st)"
  by (simp_all add: log_def emit_def Let_def)

lemma log_trace: "set (trace st) \<subseteq> set (trace (log m b st))"
  by (auto simp: log_def emit_def Let_def)

lemma log_logged:
  "AppendFile logFile m \<in> set (trace (log m b st))" "Stdout m \<in> set (trace (log m True st))"
  by (auto simp: log_def emit_def Let_def)

lemma run_result:
  "run h command dir st = (out, st') \<Longrightarrow>
   fst (exec h command dir (world st)) = out \<and> world st' = snd (exec h command dir (world st))
   \<and> trace st' = trace st @ [Exec command dir]"
  by (auto simp: run_def split: prod.splits)

subsection \<open>The registry check\<close>

lemma isPackagePublished_result:
  assumes "isPackagePublished h n v r st = (b, st')"
  shows "b = (\<exists>out. fst (exec h (viewCommand n v r) (cwd h) (world st)) = Some out \<and> js_trim out = v)"
    and "world st' = snd (exec h (viewCommand n v r) (cwd h) (world st))"
    and "trace st' = trace st @ [Exec (viewCommand n v r) (cwd h)]"
  using assms
  by (auto simp: isPackagePublished_def Let_def dest!: run_result split: prod.splits option.splits)

text \<open>
  Claim C8. The check answers true exactly when the query ran and its output, spaces
  aside, is the version asked for. A query that failed, for whatever reason, gives the
  answer false: the result is a truth value, there is no third outcome. The one command
  the check runs is the query for that name and version.
\<close>

theorem published_only_when_reported:
  "fst (isPackagePublished h n v r st)
     = (\<exists>out. fst (exec h (viewCommand n v r) (cwd h) (world st)) = Some out \<and> js_trim out = v)
   \<and> (fst (exec h (viewCommand n v r) (cwd h) (world st)) = None
        \<longrightarrow> \<not> fst (isPackagePublished h n v r st))
   \<and> executed (trace (snd (isPackagePublished h n v r st)))
       = executed (trace st) @ [viewCommand n v r]"
proof -
  obtain b st' where r: "isPackagePublished h n v r st = (b, st')"
    by (cases "isPackagePublished h n v r st")
  from isPackagePublished_result[OF r] r show ?thesis by auto
qed

theorem published_only_when_reported_witness:
  "fst (exec (registry_host two_archives) (viewCommand ''left-pad'' ''1.0.0'' example_registry)
          ''/work'' left_pad_published) = Some (''1.0.0'' @ [CHR 0x0A])
   \<and> fst (isPackagePublished (registry_host two_archives) ''left-pad'' ''1.0.0'' example_registry
            \<lparr>world = left_pad_published, trace = []\<rparr>)
   \<and> fst (exec (registry_host two_archives) (viewCommand ''@left/pad'' ''1.0.0'' example_registry)
          ''/work'' left_pad_published) = None
   \<and> \<not> fst (isPackagePublished (registry_host two_archives) ''@left/pad'' ''1.0.0'' example_registry
              \<lparr>world = left_pad_published, trace = []\<rparr>)"
proof -
  let ?h = "registry_host two_archives"
  let ?st = "\<lparr>world = left_pad_published, trace = []\<rparr> :: ((string \<times> string) list, pub_msg) state"
  have c: "cwd ?h = ''/work''"
    by (simp add: registry_host_def)
  have 1: "fst (exec ?h (viewCommand ''left-pad'' ''1.0.0'' example_registry) ''/work''
             left_pad_published) = Some (''1.0.0'' @ [CHR 0x0A])"
    by code_simp
  have t: "js_trim (''1.0.0'' @ [CHR 0x0A]) = ''1.0.0''"
    by code_simp
  have 2: "fst (exec ?h (viewCommand ''@left/pad'' ''1.0.0'' example_registry) ''/work''
             left_pad_published) = None"
    by code_simp
  from published_only_when_reported[of ?h "''left-pad''" "''1.0.0''" example_registry ?st] 1 t c
  have 3: "fst (isPackagePublished ?h ''left-pad'' ''1.0.0'' example_registry ?st)"
    by simp
  from published_only_when_reported[of ?h "''@left/pad''" "''1.0.0''" example_registry ?st] 2 c
  have 4: "\<not> fst (isPackagePublished ?h ''@left/pad'' ''1.0.0'' example_registry ?st)"
    by simp
  from 1 2 3 4 show ?thesis by blast
qed

subsection \<open>The publish loop\<close>

lemma publishFile_unpublished:
  assumes info: "extractPackageInfo f = Some info"
    and un: "\<not> reported h (name info) (version info) r (world st)"
    and res: "publishFile h dir r n i f (c, st) = (c', st')"
  shows "c' = (if succeeds h (publishCommand (path_join dir f) r)
                    (world_after h (viewCommand (name info) (version info) r) (world st))
               then c\<lparr>successCount := successCount c + 1\<rparr>
               else c\<lparr>failureCount := failureCount c + 1\<rparr>)"
    and "executed (trace st')
        = executed (trace st) @ [viewCommand (name info) (version info) r,
                                 publishCommand (path_join dir f) r]"
    and "world st' = world_after h (publishCommand (path_join dir f) r)
                       (world_after h (viewCommand (name info) (version info) r) (world st))"
proof -
  let ?st1 = "log (Processing (i + 1) n (name info) (version info)) True st"
  obtain b st2 where q: "isPackagePublished h (name info) (version info) r ?st1 = (b, st2)"
    by (cases "isPackagePublished h (name info) (version info) r ?st1")
  from isPackagePublished_result[OF q] un have b: "\<not> b"
    and t2: "executed (trace st2) = executed (trace st) @ [viewCommand (name info) (version info) r]"
    and w2: "world st2 = world_after h (viewCommand (name info) (version info) r) (world st)"
    by (auto simp: reported_def world_after_def)
  let ?st3 = "log (Publishing (i + 1) n (name info) (version info)) True st2"
  obtain out st4 where p: "run h (publishCommand (path_join dir f) r) (cwd h) ?st3 = (out, st4)"
    by (cases "run h (publishCommand (path_join dir f) r) (cwd h) ?st3")
  from run_result[OF p] t2 w2
  have t4: "executed (trace st4) = executed (trace st) @ [viewCommand (name info) (version info) r,
                                 publishCommand (path_join dir f) r]"
    and w4: "world st4 = world_after h (publishCommand (path_join dir f) r)
                        (world_after h (viewCommand (name info) (version info) r) (world st))"
    and o: "succeeds h (publishCommand (path_join dir f) r)
              (world_after h (viewCommand (name info) (version info) r) (world st)) = (out \<noteq> None)"
    by (auto simp: world_after_def succeeds_def)
  from res info q b p have r: "(c', st') =
      (case out of
         Some x \<Rightarrow> (c\<lparr>successCount := successCount c + 1\<rparr>,
                    log Separator True
                      (log (PublishSucceeded (i + 1) n (name info) (version info)) True st4))
       | None \<Rightarrow> (c\<lparr>failureCount := failureCount c + 1\<rparr>,
                  log Separator True (log ErrorDetail False
                    (log (PublishFailed (i + 1) n (name info) (version info)) True st4))))"
    by (simp add: publishFile_def Let_def)
  from r o show "c' = (if succeeds h (publishCommand (path_join dir f) r)
                    (world_after h (viewCommand (name info) (version info) r) (world st))
               then c\<lparr>successCount := successCount c + 1\<rparr>
               else c\<lparr>failureCount := failureCount c + 1\<rparr>)"
    by (cases out) auto
  from r t4 show "executed (trace st')
        = executed (trace st) @ [viewCommand (name info) (version info) r,
                                 publishCommand (path_join dir f) r]"
    by (cases out) auto
  from r w4 show "world st' = world_after h (publishCommand (path_join dir f) r)
                       (world_after h (viewCommand (name info) (version info) r) (world st))"
    by (cases out) auto
qed

text \<open>
  Claim C9. The publisher exits with status 1 when it is given no argument and when the
  directory of its first argument does not exist; when the directory can be listed and
  holds no file ending in \<open>.tgz\<close>, it logs the warning (to the log file and the console),
  runs no command and exits with status 0.
\<close>

theorem publisher_exit_status:
  "(args = [] \<longrightarrow> fst (publish_script h args w) = Exit 1)
   \<and> (args \<noteq> [] \<and> \<not> existsSync (files h w) (resolve h (hd args))
        \<longrightarrow> fst (publish_script h args w) = Exit 1)
   \<and> (args \<noteq> [] \<and> existsSync (files h w) (resolve h (hd args))
        \<and> readdirSync (files h w) (resolve h (hd args)) = Some entries
        \<and> filter (\<lambda>f. endsWith f ''.tgz'') entries = []
        \<longrightarrow> fst (publish_script h args w) = Exit 0
            \<and> Stdout NoArchives \<in> set (trace (snd (publish_script h args w)))
            \<and> AppendFile logFile NoArchives \<in> set (trace (snd (publish_script h args w)))
            \<and> executed (trace (snd (publish_script h args w))) = [])"
  by (cases args)
     (auto simp: publish_script_def publish_main_def Let_def hd_conv_nth log_def emit_def)

theorem publisher_exit_status_witness:
  "fst (publish_script (registry_host [''README.md'']) [] left_pad_published) = Exit 1
   \<and> \<not> existsSync (files (registry_host [''README.md'']) left_pad_published) ''/nowhere''
   \<and> fst (publish_script (registry_host [''README.md'']) [''/nowhere''] left_pad_published) = Exit 1
   \<and> readdirSync (files (registry_host [''README.md'']) left_pad_published) ''/archives''
       = Some [''README.md'']
   \<and> fst (publish_script (registry_host [''README.md'']) [''/archives''] left_pad_published) = Exit 0
   \<and> Stdout NoArchives
       \<in> set (trace (snd (publish_script (registry_host [''README.md'']) [''/archives'']
                           left_pad_published)))"
proof -
  let ?h = "registry_host [''README.md'']"
  have r: "resolve ?h p = p" for p
    by (simp add: registry_host_def)
  have 1: "fst (publish_script ?h [] left_pad_published) = Exit 1"
    using publisher_exit_status[of "[]" ?h left_pad_published] by simp
  have e: "\<not> existsSync (files ?h left_pad_published) ''/nowhere''"
    by (simp add: registry_host_def archive_fs_def)
  have 2: "fst (publish_script ?h [''/nowhere''] left_pad_published) = Exit 1"
    using publisher_exit_status[of "[''/nowhere'']" ?h left_pad_published] e r by simp
  have x: "existsSync (files ?h left_pad_published) ''/archives''"
    and l: "readdirSync (files ?h left_pad_published) ''/archives'' = Some [''README.md'']"
    by (simp_all add: registry_host_def archive_fs_def)
  have f: "filter (\<lambda>f. endsWith f ''.tgz'') [''README.md''] = []"
    by (simp add: endsWith_def)
  from publisher_exit_status[of "[''/archives'']" ?h left_pad_published "[''README.md'']"] x l f r
  have 3: "fst (publish_script ?h [''/archives''] left_pad_published) = Exit 0"
    and 4: "Stdout NoArchives \<in> set (trace (snd (publish_script ?h [''/archives''] left_pad_published)))"
    by simp_all
  from 1 e 2 l 3 4 show ?thesis by blast
qed

lemma publish_main_listing:
  assumes "existsSync (files h (world st)) dir"
    and "readdirSync (files h (world st)) dir = Some entries"
    and "filter (\<lambda>f. endsWith f ''.tgz'') entries = fs" and "fs \<noteq> []"
    and "publishLoop h dir r (length fs) 0 fs
           (\<lparr>successCount = 0, skippedCount = 0, failureCount = 0\<rparr>,
            log Separator True (log (Preparing (length fs) r) True st)) = (c, st')"
  shows "fst (publish_main h dir r st) = Finished c"
    and "executed (trace (snd (publish_main h dir r st))) = executed (trace st')"
    and "world (snd (publish_main h dir r st)) = world st'"
  using assms by (auto simp: publish_main_def Let_def)

lemma publish_two_unpublished:
  assumes a: "extractPackageInfo fa = Some ia"
    and b: "extractPackageInfo fb = Some ib"
    and w1: "w1 = world_after h (viewCommand (name ia) (version ia) r) (world st)"
    and w2: "w2 = world_after h (publishCommand (path_join dir fa) r) w1"
    and w3: "w3 = world_after h (viewCommand (name ib) (version ib) r) w2"
    and ua: "\<not> reported h (name ia) (version ia) r (world st)"
    and ub: "\<not> reported h (name ib) (version ib) r w2"
    and ex: "existsSync (files h (world st)) dir"
    and ls: "readdirSync (files h (world st)) dir = Some entries"
    and fl: "filter (\<lambda>f. endsWith f ''.tgz'') entries = [fa, fb]"
  shows "fst (publish_main h dir r st)
      = Finished \<lparr>successCount =
                     (if succeeds h (publishCommand (path_join dir fa) r) w1 then 1 else 0)
                     + (if succeeds h (publishCommand (path_join dir fb) r) w3 then 1 else 0),
                  skippedCount = 0,
                  failureCount =
                     (if succeeds h (publishCommand (path_join dir fa) r) w1 then 0 else 1)
                     + (if succeeds h (publishCommand (path_join dir fb) r) w3 then 0 else 1)\<rparr>"
    and "executed (trace (snd (publish_main h dir r st)))
        = executed (trace st) @
          [viewCommand (name ia) (version ia) r, publishCommand (path_join dir fa) r,
           viewCommand (name ib) (version ib) r, publishCommand (path_join dir fb) r]"
    and "world (snd (publish_main h dir r st))
        = world_after h (publishCommand (path_join dir fb) r) w3"
proof -
  let ?z = "\<lparr>successCount = 0, skippedCount = 0, failureCount = 0\<rparr>"
  let ?n = "Suc (Suc 0)"
  let ?s0 = "log Separator True (log (Preparing ?n r) True st)"
  obtain c1 s1 where 1: "publishFile h dir r ?n 0 fa (?z, ?s0) = (c1, s1)"
    by (cases "publishFile h dir r ?n 0 fa (?z, ?s0)")
  obtain c2 s2 where 2: "publishFile h dir r ?n (Suc 0) fb (c1, s1) = (c2, s2)"
    by (cases "publishFile h dir r ?n (Suc 0) fb (c1, s1)")
  have ua0: "\<not> reported h (name ia) (version ia) r (world ?s0)"
    using ua by simp
  note k1 = publishFile_unpublished[OF a ua0 1]
  from k1(3) w1 w2 have ws1: "world s1 = w2" by simp
  with ub have ub1: "\<not> reported h (name ib) (version ib) r (world s1)"
    by simp
  note k2 = publishFile_unpublished[OF b ub1 2]
  have loop: "publishLoop h dir r (length [fa, fb]) 0 [fa, fb]
           (?z, log Separator True (log (Preparing (length [fa, fb]) r) True st)) = (c2, s2)"
    using 1 2 by simp
  note m = publish_main_listing[OF ex ls fl _ loop]
  from k1(1) k2(1) w1 w3 ws1
  have c2: "c2 = \<lparr>successCount =
                     (if succeeds h (publishCommand (path_join dir fa) r) w1 then 1 else 0)
                     + (if succeeds h (publishCommand (path_join dir fb) r) w3 then 1 else 0),
                  skippedCount = 0,
                  failureCount =
                     (if succeeds h (publishCommand (path_join dir fa) r) w1 then 0 else 1)
                     + (if succeeds h (publishCommand (path_join dir fb) r) w3 then 0 else 1)\<rparr>"
    by simp
  from m(1) c2 show "fst (publish_main h dir r st)
      = Finished \<lparr>successCount =
                     (if succeeds h (publishCommand (path_join dir fa) r) w1 then 1 else 0)
                     + (if succeeds h (publishCommand (path_join dir fb) r) w3 then 1 else 0),
                  skippedCount = 0,
                  failureCount =
                     (if succeeds h (publishCommand (path_join dir fa) r) w1 then 0 else 1)
                     + (if succeeds h (publishCommand (path_join dir fb) r) w3 then 0 else 1)\<rparr>"
    by simp
  from m(2) k1(2) k2(2) show "executed (trace (snd (publish_main h dir r st)))
        = executed (trace st) @
          [viewCommand (name ia) (version ia) r, publishCommand (path_join dir fa) r,
           viewCommand (name ib) (version ib) r, publishCommand (path_join dir fb) r]"
    by simp
  from m(3) k2(3) ws1 w3 show "world (snd (publish_main h dir r st))
        = world_after h (publishCommand (path_join dir fb) r) w3"
    by simp
qed

lemma decode_left_pad:
  "extractPackageInfo ''left-pad-1.0.0.tgz'' = Some \<lparr>name = ''@left/pad'', version = ''1.0.0''\<rparr>"
  by (simp add: extractPackageInfo_def strip_tgz_def endsWith_def is_version_def
      eat_digits_def eat_char_def is_digit_def is_tag_char_def includes_char_def)

lemma decode_scope_utils:
  "extractPackageInfo ''@scope-utils-2.3.4.tgz''
     = Some \<lparr>name = ''@@scope/utils'', version = ''2.3.4''\<rparr>"
  by (simp add: extractPackageInfo_def strip_tgz_def endsWith_def is_version_def
      eat_digits_def eat_char_def is_digit_def is_tag_char_def includes_char_def)

text \<open>
  Claim C1, as the code has it. The decoder reads \<open>left-pad-1.0.0.tgz\<close> as
  \<open>@left/pad@1.0.0\<close> and \<open>@scope-utils-2.3.4.tgz\<close> as \<open>@@scope/utils@2.3.4\<close>: the first
  segment before a hyphen is taken for a scope. Let the directory list these two archives,
  \<open>fa\<close> first and \<open>fb\<close> second in whichever order, decoded as \<open>ia\<close> and \<open>ib\<close>, and let
  \<open>w1\<close>, \<open>w2\<close> and \<open>w3\<close> be the worlds left by the query for \<open>ia\<close>, the publish of \<open>fa\<close>
  and the query for \<open>ib\<close>. When the registry reports neither decoded identity at the moment
  it is asked (\<open>ia\<close> at the start, \<open>ib\<close> in \<open>w2\<close>), the run skips nothing and runs four
  commands in all, a query and a publish for each file in the order of the listing; the
  number of successes is the number of the two publish commands that end normally (the one
  for \<open>fa\<close> in \<open>w1\<close>, the one for \<open>fb\<close> in \<open>w3\<close>), and the number of failures is the number
  of those that do not.
\<close>

theorem example_run_publishes_both:
  assumes args: "args \<noteq> []"
    and dir: "dir = resolve h (hd args)"
    and reg: "registry = registryArg args"
    and ex: "existsSync (files h w) dir"
    and ls: "readdirSync (files h w) dir = Some entries"
    and fl: "filter (\<lambda>f. endsWith f ''.tgz'') entries = [fa, fb]"
    and two: "(fa, fb) = (''left-pad-1.0.0.tgz'', ''@scope-utils-2.3.4.tgz'')
              \<or> (fa, fb) = (''@scope-utils-2.3.4.tgz'', ''left-pad-1.0.0.tgz'')"
    and a: "extractPackageInfo fa = Some ia"
    and b: "extractPackageInfo fb = Some ib"
    and w1: "w1 = world_after h (viewCommand (name ia) (version ia) registry) w"
    and w2: "w2 = world_after h (publishCommand (path_join dir fa) registry) w1"
    and w3: "w3 = world_after h (viewCommand (name ib) (version ib) registry) w2"
    and ua: "\<not> reported h (name ia) (version ia) registry w"
    and ub: "\<not> reported h (name ib) (version ib) registry w2"
  shows "extractPackageInfo ''left-pad-1.0.0.tgz'' = Some \<lparr>name = ''@left/pad'', version = ''1.0.0''\<rparr>
    \<and> extractPackageInfo ''@scope-utils-2.3.4.tgz''
        = Some \<lparr>name = ''@@scope/utils'', version = ''2.3.4''\<rparr>
    \<and> fst (publish_script h args w)
        = Finished \<lparr>successCount =
                       (if succeeds h (publishCommand (path_join dir fa) registry) w1 then 1 else 0)
                       + (if succeeds h (publishCommand (path_join dir fb) registry) w3 then 1 else 0),
                    skippedCount = 0,
                    failureCount =
                       (if succeeds h (publishCommand (path_join dir fa) registry) w1 then 0 else 1)
                       + (if succeeds h (publishCommand (path_join dir fb) registry) w3 then 0 else 1)\<rparr>
    \<and> executed (trace (snd (publish_script h args w)))
        = [viewCommand (name ia) (version ia) registry,
           publishCommand (path_join dir fa) registry,
           viewCommand (name ib) (version ib) registry,
           publishCommand (path_join dir fb) registry]
    \<and> world (snd (publish_script h args w))
        = world_after h (publishCommand (path_join dir fb) registry) w3"
proof -
  let ?st = "\<lparr>world = w, trace = [WriteFile logFile (LogHeader registry)]\<rparr>
               :: ('a, pub_msg) state"
  have s: "publish_script h args w = publish_main h dir registry ?st"
    using args dir reg by (cases args) (simp_all add: publish_script_def Let_def)
  from ex ls have ex': "existsSync (files h (world ?st)) dir"
    and ls': "readdirSync (files h (world ?st)) dir = Some entries"
    by simp_all
  from w1 have w1': "w1 = world_after h (viewCommand (name ia) (version ia) registry) (world ?st)"
    by simp
  from ua have ua': "\<not> reported h (name ia) (version ia) registry (world ?st)"
    by simp
  note k = publish_two_unpublished[OF a b w1' w2 w3 ua' ub ex' ls' fl]
  from k(2) have e: "executed (trace (snd (publish_main h dir registry ?st)))
        = [viewCommand (name ia) (version ia) registry,
           publishCommand (path_join dir fa) registry,
           viewCommand (name ib) (version ib) registry,
           publishCommand (path_join dir fb) registry]"
    by simp
  from k(1) e k(3) decode_left_pad decode_scope_utils show ?thesis
    unfolding s by simp
qed

text \<open>
  The run of the end-to-end example on the example registry, where \<open>left-pad@1.0.0\<close> is
  published and \<open>@scope/utils@2.3.4\<close> is not: both archives are handed to the publish
  command, the registry refuses the first (it has that version) and takes the second, and
  nothing is skipped.
\<close>

theorem example_run_counterexample:
  "fst (publish_script (registry_host two_archives) [''/archives''] left_pad_published)
     = Finished \<lparr>successCount = 1, skippedCount = 0, failureCount = 1\<rparr>
   \<and> executed (trace (snd (publish_script (registry_host two_archives) [''/archives'']
                              left_pad_published)))
       = [viewCommand ''@left/pad'' ''1.0.0'' example_registry,
          publishCommand ''/archives/left-pad-1.0.0.tgz'' example_registry,
          viewCommand ''@@scope/utils'' ''2.3.4'' example_registry,
          publishCommand ''/archives/@scope-utils-2.3.4.tgz'' example_registry]
   \<and> fst (publish_script (registry_host two_archives) [''/archives''] left_pad_published)
       \<noteq> Finished \<lparr>successCount = 1, skippedCount = 1, failureCount = 0\<rparr>"
proof -
  have 1: "fst (publish_script (registry_host two_archives) [''/archives''] left_pad_published)
     = Finished \<lparr>successCount = 1, skippedCount = 0, failureCount = 1\<rparr>"
    by code_simp
  have 2: "executed (trace (snd (publish_script (registry_host two_archives) [''/archives'']
                              left_pad_published)))
       = [viewCommand ''@left/pad'' ''1.0.0'' example_registry,
          publishCommand ''/archives/left-pad-1.0.0.tgz'' example_registry,
          viewCommand ''@@scope/utils'' ''2.3.4'' example_registry,
          publishCommand ''/archives/@scope-utils-2.3.4.tgz'' example_registry]"
    by code_simp
  from 1 2 show ?thesis by simp
qed

theorem example_run_publishes_both_witness:
  "[''/archives''] \<noteq> []
   \<and> existsSync (files (registry_host two_archives) left_pad_published) ''/archives''
   \<and> readdirSync (files (registry_host two_archives) left_pad_published) ''/archives''
       = Some two_archives
   \<and> reported (registry_host two_archives) ''left-pad'' ''1.0.0'' example_registry left_pad_published
   \<and> \<not> reported (registry_host two_archives) ''@left/pad'' ''1.0.0'' example_registry
         left_pad_published
   \<and> \<not> succeeds (registry_host two_archives)
         (publishCommand ''/archives/left-pad-1.0.0.tgz'' example_registry) left_pad_published
   \<and> succeeds (registry_host two_archives)
         (publishCommand ''/archives/@scope-utils-2.3.4.tgz'' example_registry) left_pad_published
   \<and> fst (publish_script (registry_host two_archives) [''/archives''] left_pad_published)
       = Finished \<lparr>successCount = 1, skippedCount = 0, failureCount = 1\<rparr>"
proof -
  let ?h = "registry_host two_archives"
  let ?ia = "\<lparr>name = ''@left/pad'', version = ''1.0.0''\<rparr>"
  let ?ib = "\<lparr>name = ''@@scope/utils'', version = ''2.3.4''\<rparr>"
  let ?pa = "publishCommand ''/archives/left-pad-1.0.0.tgz'' example_registry"
  let ?pb = "publishCommand ''/archives/@scope-utils-2.3.4.tgz'' example_registry"
  have r: "example_registry = registryArg [''/archives'']"
    by (simp add: registryArg_def example_registry_def)
  have d: "''/archives'' = resolve ?h (hd [''/archives''])"
    by (simp add: registry_host_def)
  have ex: "existsSync (files ?h left_pad_published) ''/archives''"
    by (simp add: registry_host_def archive_fs_def)
  have ls: "readdirSync (files ?h left_pad_published) ''/archives'' = Some two_archives"
    by (simp add: registry_host_def archive_fs_def)
  have fl: "filter (\<lambda>f. endsWith f ''.tgz'') two_archives
              = [''left-pad-1.0.0.tgz'', ''@scope-utils-2.3.4.tgz'']"
    by (simp add: two_archives_def endsWith_def)
  have two: "(''left-pad-1.0.0.tgz'', ''@scope-utils-2.3.4.tgz'')
                = (''left-pad-1.0.0.tgz'', ''@scope-utils-2.3.4.tgz'')
              \<or> (''left-pad-1.0.0.tgz'', ''@scope-utils-2.3.4.tgz'')
                = (''@scope-utils-2.3.4.tgz'', ''left-pad-1.0.0.tgz'')"
    by simp
  have ja: "path_join ''/archives'' ''left-pad-1.0.0.tgz'' = ''/archives/left-pad-1.0.0.tgz''"
    by code_simp
  have jb: "path_join ''/archives'' ''@scope-utils-2.3.4.tgz'' = ''/archives/@scope-utils-2.3.4.tgz''"
    by code_simp
  have w1: "left_pad_published
              = world_after ?h (viewCommand (name ?ia) (version ?ia) example_registry)
                  left_pad_published"
    by code_simp
  have w2: "left_pad_published
              = world_after ?h (publishCommand (path_join ''/archives'' ''left-pad-1.0.0.tgz'')
                  example_registry) left_pad_published"
    by code_simp
  have w3: "left_pad_published
              = world_after ?h (viewCommand (name ?ib) (version ?ib) example_registry)
                  left_pad_published"
    by code_simp
  have p: "reported ?h ''left-pad'' ''1.0.0'' example_registry left_pad_published"
    by code_simp
  have ua: "\<not> reported ?h ''@left/pad'' ''1.0.0'' example_registry left_pad_published"
    by code_simp
  have ub: "\<not> reported ?h ''@@scope/utils'' ''2.3.4'' example_registry left_pad_published"
    by code_simp
  have sa: "\<not> succeeds ?h ?pa left_pad_published"
    by code_simp
  have sb: "succeeds ?h ?pb left_pad_published"
    by code_simp
  from example_run_publishes_both[where h = ?h and args = "[''/archives'']"
      and w = left_pad_published and ia = ?ia and ib = ?ib, OF _ d r ex ls fl two
      decode_left_pad decode_scope_utils w1 w2 w3] ua ub
  have "fst (publish_script ?h [''/archives''] left_pad_published)
       = Finished \<lparr>successCount =
                       (if succeeds ?h ?pa left_pad_published then 1 else 0)
                       + (if succeeds ?h ?pb left_pad_published then 1 else 0),
                    skippedCount = 0,
                    failureCount =
                       (if succeeds ?h ?pa left_pad_published then 0 else 1)
                       + (if succeeds ?h ?pb left_pad_published then 0 else 1)\<rparr>"
    unfolding ja jb by simp
  with sa sb have "fst (publish_script ?h [''/archives''] left_pad_published)
       = Finished \<lparr>successCount = 1, skippedCount = 0, failureCount = 1\<rparr>"
    by simp
  with ex ls p ua sa sb show ?thesis
    by simp
qed

section \<open>Properties of the walk\<close>

subsection \<open>Every stretch of the walk grows the accumulator\<close>

lemma grows_refl: "grows M a a"
  unfolding grows_def by (intro exI[of _ "[]"]) simp

lemma grows_trans:
  assumes ab: "grows M a b" and bc: "grows M b c"
  shows "grows M a c"
proof -
  from ab obtain n1 v1 where 1:
    "fst b = fst a @ n1" "visited (snd b) = visited (snd a) @ v1"
    "distinct (map packageKey n1)"
    "packageKey ` set n1 \<inter> processedPackages (snd a) = {}"
    "processedPackages (snd b) = processedPackages (snd a) \<union> packageKey ` set n1"
    "\<forall>e \<in> set v1. fst e \<le> M \<and> packageKey (snd (snd e)) \<in> processedPackages (snd b)"
    "\<forall>pkg \<in> set n1. \<exists>d path. (d, path, pkg) \<in> set v1"
    unfolding grows_def by blast
  from bc obtain n2 v2 where 2:
    "fst c = fst b @ n2" "visited (snd c) = visited (snd b) @ v2"
    "distinct (map packageKey n2)"
    "packageKey ` set n2 \<inter> processedPackages (snd b) = {}"
    "processedPackages (snd c) = processedPackages (snd b) \<union> packageKey ` set n2"
    "\<forall>e \<in> set v2. fst e \<le> M \<and> packageKey (snd (snd e)) \<in> processedPackages (snd c)"
    "\<forall>pkg \<in> set n2. \<exists>d path. (d, path, pkg) \<in> set v2"
    unfolding grows_def by blast
  have a: "fst c = fst a @ (n1 @ n2)" "visited (snd c) = visited (snd a) @ (v1 @ v2)"
    using 1(1,2) 2(1,2) by simp_all
  have b: "distinct (map packageKey (n1 @ n2))"
    using 1(3,5) 2(3,4) by auto
  have c: "packageKey ` set (n1 @ n2) \<inter> processedPackages (snd a) = {}"
    using 1(4,5) 2(4) by auto
  have d: "processedPackages (snd c) = processedPackages (snd a) \<union> packageKey ` set (n1 @ n2)"
    using 1(5) 2(5) by auto
  have e: "\<forall>e \<in> set (v1 @ v2). fst e \<le> M \<and> packageKey (snd (snd e)) \<in> processedPackages (snd c)"
    using 1(6) 2(5,6) by auto
  have f: "\<forall>pkg \<in> set (n1 @ n2). \<exists>d path. (d, path, pkg) \<in> set (v1 @ v2)"
    using 1(7) 2(7) by (metis Un_iff set_append)
  from a b c d e f show ?thesis
    unfolding grows_def by blast
qed

lemma grows_printed: "grows M (pkgs, st) (pkgs, st\<lparr>printed := x\<rparr>)"
  unfolding grows_def by (intro exI[of _ "[]"]) simp

lemma grows_prepend:
  "grows M ([], st) (new, st') \<Longrightarrow> grows M (pkgs, st) (pkgs @ new, st')"
  unfolding grows_def by simp

lemma forOf_grows:
  "(\<And>x acc. x \<in> set xs \<Longrightarrow> grows M acc (snd (body x acc)))
   \<Longrightarrow> grows M acc (snd (forOf body xs acc))"
proof (induction xs arbitrary: acc)
  case Nil
  then show ?case by (simp add: grows_refl)
next
  case (Cons x xs)
  obtain t acc' where b: "body x acc = (t, acc')"
    by (cases "body x acc")
  from Cons.prems[of x acc] b have 1: "grows M acc acc'" by simp
  show ?case
  proof (cases t)
    case True
    with b 1 show ?thesis by simp
  next
    case False
    from Cons.IH[of acc'] Cons.prems have "grows M acc' (snd (forOf body xs acc'))"
      by simp
    with 1 b False show ?thesis
      by (auto intro: grows_trans)
  qed
qed

lemma visitPackage_grows:
  assumes d: "depth \<le> M"
    and r: "\<forall>p st. grows M ([], st) (recurse p st)"
  shows "grows M acc (visitPackage recurse files' depth packagePath acc)"
proof -
  obtain pkgs st where acc: "acc = (pkgs, st)" by (cases acc)
  let ?path = "path_join packagePath ''package.json''"
  show ?thesis
  proof (cases "getPackageInfo files' ?path")
    case None
    with acc show ?thesis
      by (simp add: visitPackage_def grows_refl)
  next
    case (Some info)
    let ?st1 = "st\<lparr>visited := visited st @ [(depth, ?path, info)]\<rparr>"
    show ?thesis
    proof (cases "packageKey info \<in> processedPackages st")
      case True
      have "grows M (pkgs, st) (pkgs, ?st1)"
        unfolding grows_def using True d
        by (intro exI[of _ "[]"] exI[of _ "[(depth, ?path, info)]"]) simp
      with acc Some True show ?thesis
        by (simp add: visitPackage_def Let_def)
    next
      case False
      let ?st2 = "?st1\<lparr>processedPackages := insert (packageKey info) (processedPackages ?st1)\<rparr>"
      have g1: "grows M (pkgs, st) (pkgs @ [info], ?st2)"
        unfolding grows_def using False d
        by (intro exI[of _ "[info]"] exI[of _ "[(depth, ?path, info)]"]) auto
      show ?thesis
      proof (cases "existsSync files' (path_join packagePath ''node_modules'')")
        case no: False
        with acc Some False g1 show ?thesis
          by (simp add: visitPackage_def Let_def)
      next
        case yes: True
        obtain nested st3 where n: "recurse (path_join packagePath ''node_modules'') ?st2 = (nested, st3)"
          by (cases "recurse (path_join packagePath ''node_modules'') ?st2")
        from r n have "grows M ([], ?st2) (nested, st3)"
          by (metis (no_types))
        from grows_prepend[OF this, of "pkgs @ [info]"]
        have "grows M (pkgs @ [info], ?st2) (pkgs @ [info] @ nested, st3)" by simp
        from grows_trans[OF g1 this] acc Some False yes n show ?thesis
          by (simp add: visitPackage_def Let_def)
      qed
    qed
  qed
qed

lemma scanNamespaceEntry_grows:
  assumes "depth \<le> M" and "\<forall>p st. grows M ([], st) (recurse p st)"
  shows "grows M acc (snd (scanNamespaceEntry recurse files' depth namespacePath entry acc))"
  using visitPackage_grows[OF assms, of acc files' "path_join namespacePath entry"]
  by (auto simp: scanNamespaceEntry_def Let_def grows_refl split: option.splits bool.splits)

lemma scanEntry_grows:
  assumes d: "depth \<le> M" and r: "\<forall>p st. grows M ([], st) (recurse p st)"
  shows "grows M acc (snd (scanEntry recurse files' depth nodeModulesPath entry acc))"
proof -
  obtain pkgs st where acc: "acc = (pkgs, st)" by (cases acc)
  let ?p = "path_join nodeModulesPath entry"
  have v: "grows M acc (visitPackage recurse files' depth ?p acc)"
    by (rule visitPackage_grows[OF d r])
  have lg: "grows M acc (q, s\<lparr>printed := x\<rparr>)" if "grows M acc (q, s)" for q s x
    using grows_trans[OF that grows_printed] .
  show ?thesis
  proof (cases "take 1 entry = ''@''")
    case ns: True
    show ?thesis
    proof (cases "isDirectory files' ?p")
      case None
      with ns show ?thesis by (simp add: scanEntry_def grows_refl)
    next
      case (Some isDir)
      show ?thesis
      proof (cases isDir)
        case False
        with ns Some show ?thesis by (simp add: scanEntry_def grows_refl)
      next
        case True
        show ?thesis
        proof (cases "readdirSync files' ?p")
          case None
          have "grows M acc (pkgs, st\<lparr>printed := x\<rparr>)" for x
            unfolding acc by (rule grows_printed)
          with ns \<open>isDirectory files' ?p = Some isDir\<close> True None acc show ?thesis
            by (simp add: scanEntry_def)
        next
          case (Some es)
          obtain t q s where f: "forOf (scanNamespaceEntry recurse files' depth ?p) es acc = (t, q, s)"
            by (cases "forOf (scanNamespaceEntry recurse files' depth ?p) es acc") auto
          have "grows M acc (snd (forOf (scanNamespaceEntry recurse files' depth ?p) es acc))"
            by (rule forOf_grows) (rule scanNamespaceEntry_grows[OF d r])
          with f have g: "grows M acc (q, s)" by simp
          from ns \<open>isDirectory files' ?p = Some isDir\<close> True Some f g lg[OF g] show ?thesis
            by (cases t) (simp_all add: scanEntry_def)
        qed
      qed
    qed
  next
    case plain: False
    show ?thesis
    proof (cases "entry \<noteq> ''.bin'' \<and> entry \<noteq> ''.cache'' \<and> entry \<noteq> ''.package-lock.json''")
      case False
      with plain show ?thesis by (auto simp: scanEntry_def grows_refl)
    next
      case True
      with plain v show ?thesis
        by (auto simp: scanEntry_def Let_def grows_refl split: option.splits bool.splits)
    qed
  qed
qed

lemma getAllPackages_grows:
  "grows M ([], st) (getAllPackages files' p st d M)"
proof (induction files' p st d M rule: getAllPackages.induct)
  case (1 files' p st d M)
  show ?case
  proof (cases "d > M")
    case True
    then show ?thesis
      by (subst getAllPackages.simps) (simp add: grows_printed)
  next
    case inb: False
    show ?thesis
    proof (cases "existsSync files' p")
      case False
      with inb show ?thesis
        by (subst getAllPackages.simps) (simp add: grows_printed grows_refl)
    next
      case ex: True
      show ?thesis
      proof (cases "readdirSync files' p")
        case None
        with inb ex show ?thesis
          by (subst getAllPackages.simps) (simp add: grows_printed)
      next
        case (Some entries)
        let ?rec = "\<lambda>nested st'. getAllPackages files' nested st' (d + 1) M"
        from "1.IH"[OF inb _ Some] ex
        have rec: "\<forall>q s. grows M ([], s) (?rec q s)" by simp
        from inb have dM: "d \<le> M" by simp
        have loop: "grows M ([], st) (snd (forOf (scanEntry ?rec files' d p) entries ([], st)))"
          by (rule forOf_grows) (rule scanEntry_grows[OF dM rec])
        obtain t pkgs st' where f: "forOf (scanEntry ?rec files' d p) entries ([], st) = (t, pkgs, st')"
          by (cases "forOf (scanEntry ?rec files' d p) entries ([], st)") auto
        from loop f have g: "grows M ([], st) (pkgs, st')" by simp
        from grows_trans[OF g grows_printed]
        have g': "grows M ([], st) (pkgs, st'\<lparr>printed := x\<rparr>)" for x .
        from inb ex Some f g g' show ?thesis
          by (subst getAllPackages.simps) (cases t; simp)
      qed
    qed
  qed
qed

subsection \<open>Termination, keys and depths\<close>

lemma getAllPackages_total: "getAllPackages_dom x"
proof -
  have "All getAllPackages_dom"
    by (rule "getAllPackages.termination"
          [of "measure (\<lambda>(files', nodeModulesPath, st, depth, maxDepth). maxDepth + 1 - depth)"])
       auto
  then show ?thesis by (rule spec)
qed








lemma walk_from_empty:
  assumes w: "getAllPackages files' root \<lparr>processedPackages = {}, printed = out, visited = []\<rparr> 0 M
                = (pkgs, st)"
  shows "distinct (map packageKey pkgs)"
    and "processedPackages st = packageKey ` set pkgs"
    and "\<forall>e \<in> set (visited st). fst e \<le> M \<and> packageKey (snd (snd e)) \<in> packageKey ` set pkgs"
    and "\<forall>pkg \<in> set pkgs. \<exists>d path. (d, path, pkg) \<in> set (visited st)"
proof -
  from getAllPackages_grows[of M "\<lparr>processedPackages = {}, printed = out, visited = []\<rparr>" files' root 0] w
  have g: "grows M ([], \<lparr>processedPackages = {}, printed = out, visited = []\<rparr>) (pkgs, st)"
    by simp
  then show "distinct (map packageKey pkgs)" "processedPackages st = packageKey ` set pkgs"
    "\<forall>e \<in> set (visited st). fst e \<le> M \<and> packageKey (snd (snd e)) \<in> packageKey ` set pkgs"
    "\<forall>pkg \<in> set pkgs. \<exists>d path. (d, path, pkg) \<in> set (visited st)"
    unfolding grows_def by auto
qed




text \<open>
  Claim C6. On every file system, one with a cycle included (a file system here answers
  for every path, so nothing keeps a path from leading back to a directory it has passed),
  the recursion of the walk is well-founded from any arguments: every chain of recursive
  calls is finite, which the termination proof of \<open>getAllPackages\<close> has shown with the
  measure \<open>maxDepth + 1 - depth\<close>. A walk from depth 0 parses no manifest at a depth
  beyond the maximum, and every package it returns comes from a manifest it parsed at a
  depth within the maximum. The script calls the walk with the maximum 10.
\<close>

theorem walk_terminates_within_depth:
  "getAllPackages_dom (files', root, st0, depth, maxDepth)
   \<and> (\<forall>e \<in> set (visited (snd (getAllPackages files' root
                  \<lparr>processedPackages = {}, printed = out, visited = []\<rparr> 0 maxDepth))).
         fst e \<le> maxDepth)
   \<and> (\<forall>pkg \<in> set (fst (getAllPackages files' root
                  \<lparr>processedPackages = {}, printed = out, visited = []\<rparr> 0 maxDepth)).
         \<exists>d path. d \<le> maxDepth
           \<and> (d, path, pkg) \<in> set (visited (snd (getAllPackages files' root
                  \<lparr>processedPackages = {}, printed = out, visited = []\<rparr> 0 maxDepth))))"
proof -
  obtain pkgs st where w: "getAllPackages files' root
      \<lparr>processedPackages = {}, printed = out, visited = []\<rparr> 0 maxDepth = (pkgs, st)"
    by (cases "getAllPackages files' root
      \<lparr>processedPackages = {}, printed = out, visited = []\<rparr> 0 maxDepth")
  note k = walk_from_empty[OF w]
  from k(3) have 1: "\<forall>e \<in> set (visited st). fst e \<le> maxDepth" by blast
  from k(4) 1 have 2: "\<forall>pkg \<in> set pkgs. \<exists>d path. d \<le> maxDepth \<and> (d, path, pkg) \<in> set (visited st)"
    by fastforce
  from getAllPackages_total 1 2 show ?thesis
    unfolding w by simp
qed

theorem walk_terminates_within_depth_witness:
  "length (fst (getAllPackages endless_fs ''/n''
        \<lparr>processedPackages = {}, printed = [], visited = []\<rparr> 0 10)) = 11
   \<and> map fst (visited (snd (getAllPackages endless_fs ''/n''
        \<lparr>processedPackages = {}, printed = [], visited = []\<rparr> 0 10)))
       = [0, 1, 2, 3, 4, 5, 6, 7, 8, 9, 10]
   \<and> printed (snd (getAllPackages endless_fs ''/n''
        \<lparr>processedPackages = {}, printed = [], visited = []\<rparr> 0 10))
       = [Stdout (MaxDepthReached 10)]
   \<and> list_all (\<lambda>e. fst e \<le> 10) (visited (snd (getAllPackages endless_fs ''/n''
        \<lparr>processedPackages = {}, printed = [], visited = []\<rparr> 0 10)))
   \<and> getAllPackages_dom (endless_fs, ''/n'',
        \<lparr>processedPackages = {}, printed = [], visited = []\<rparr>, 0, 10)"
proof -
  let ?w = "getAllPackages endless_fs ''/n''
        \<lparr>processedPackages = {}, printed = [], visited = []\<rparr> 0 10"
  have 1: "length (fst ?w) = 11"
    by code_simp
  have 2: "map fst (visited (snd ?w)) = [0, 1, 2, 3, 4, 5, 6, 7, 8, 9, 10]"
    by code_simp
  have 3: "printed (snd ?w) = [Stdout (MaxDepthReached 10)]"
    by code_simp
  from walk_terminates_within_depth[of endless_fs "''/n''"
      "\<lparr>processedPackages = {}, printed = [], visited = []\<rparr>" 0 10 "[]"]
  have 4: "list_all (\<lambda>e. fst e \<le> 10) (visited (snd ?w))"
    and 5: "getAllPackages_dom (endless_fs, ''/n'',
        \<lparr>processedPackages = {}, printed = [], visited = []\<rparr>, 0, 10)"
    by (simp_all add: list_all_iff)
  from 1 2 3 4 5 show ?thesis by blast
qed

text \<open>The walk of the cycle ends after it has met \<open>a\<close> for the second time.\<close>

lemma walk_of_a_cycle:
  "fst (getAllPackages cyclic_fs ''/n'' \<lparr>processedPackages = {}, printed = [], visited = []\<rparr> 0 10)
     = [\<lparr>name = ''a'', version = ''1.0.0''\<rparr>, \<lparr>name = ''b'', version = ''1.0.0''\<rparr>]"
  by code_simp

section \<open>Properties of the snapshot script\<close>

lemma emit_simps [simp]:
  "world (emit e st) = world st" "trace (emit e st) = trace st @ [e]"
  by (simp_all add: emit_def)

lemma getAllPackages_missing_root:
  "\<not> existsSync files' root \<Longrightarrow>
   getAllPackages files' root st 0 maxDepth
     = ([], st\<lparr>printed := printed st @ [Stderr NodeModulesMissing]\<rparr>)"
  by (subst getAllPackages.simps) simp

text \<open>
  Claim C2, as the code has it. When \<open>node_modules\<close> does not exist and the project's
  \<open>package.json\<close> can be read (so that \<open>main\<close> gets as far as the walk), the walk returns
  the empty array and prints the warning, and \<open>main\<close> returns at its check for an empty
  result: it writes no file, so no summary, and runs no command.
\<close>

theorem missing_node_modules_returns_early:
  assumes nm: "\<not> existsSync (files h w) (path_join (cwd h) ''node_modules'')"
    and pj: "existsSync (files h w) (path_join (cwd h) ''package.json'')"
    and rd: "readJson (files h w) (path_join (cwd h) ''package.json'') = Some m"
  shows "fst (getAllPackages (files h w) (path_join (cwd h) ''node_modules'') st 0 10) = []
    \<and> fst (snapshot_main h w) = Returned None
    \<and> Stderr NodeModulesMissing \<in> set (trace (snd (snapshot_main h w)))
    \<and> written (trace (snd (snapshot_main h w))) = []
    \<and> executed (trace (snd (snapshot_main h w))) = []
    \<and> world (snd (snapshot_main h w)) = w"
proof -
  have 1: "fst (getAllPackages (files h w) (path_join (cwd h) ''node_modules'') st 0 10) = []"
    using nm by (simp add: getAllPackages_missing_root)
  have 2: "fst (snapshot_main h w) = Returned None
    \<and> Stderr NodeModulesMissing \<in> set (trace (snd (snapshot_main h w)))
    \<and> written (trace (snd (snapshot_main h w))) = []
    \<and> executed (trace (snd (snapshot_main h w))) = []
    \<and> world (snd (snapshot_main h w)) = w"
    using nm pj rd
    by (simp add: snapshot_main_def Let_def createDirIfNotExists_def
        getProjectDirectDependencies_def getAllPackages_missing_root)
  from 1 2 show ?thesis by simp
qed

theorem missing_node_modules_returns_early_witness:
  "\<not> existsSync (files bare_host ()) (path_join (cwd bare_host) ''node_modules'')
   \<and> existsSync (files bare_host ()) (path_join (cwd bare_host) ''package.json'')
   \<and> readJson (files bare_host ()) (path_join (cwd bare_host) ''package.json'')
       = Some (manifest_of ''proj'' ''0.1.0'')
   \<and> fst (snapshot_main bare_host ()) = Returned None
   \<and> Stderr NodeModulesMissing \<in> set (trace (snd (snapshot_main bare_host ())))
   \<and> written (trace (snd (snapshot_main bare_host ()))) = []"
proof -
  have 1: "\<not> existsSync (files bare_host ()) (path_join (cwd bare_host) ''node_modules'')"
    and 2: "existsSync (files bare_host ()) (path_join (cwd bare_host) ''package.json'')"
    and 3: "readJson (files bare_host ()) (path_join (cwd bare_host) ''package.json'')
       = Some (manifest_of ''proj'' ''0.1.0'')"
    by code_simp+
  from missing_node_modules_returns_early[OF 1 2 3] 1 2 3 show ?thesis
    by simp
qed

text \<open>
  The run on the project that has no \<open>node_modules\<close>: \<open>main\<close> returns, and
  \<open>packages-summary.json\<close> is not among the files it wrote.
\<close>

theorem missing_node_modules_counterexample:
  "\<not> existsSync (files bare_host ()) (path_join (cwd bare_host) ''node_modules'')
   \<and> fst (snapshot_main bare_host ()) = Returned None
   \<and> ''packages-summary.json'' \<notin> set (written (trace (snd (snapshot_main bare_host ()))))"
proof -
  have 1: "\<not> existsSync (files bare_host ()) (path_join (cwd bare_host) ''node_modules'')"
    by code_simp
  have 2: "fst (snapshot_main bare_host ()) = Returned None"
    by code_simp
  have 3: "written (trace (snd (snapshot_main bare_host ()))) = []"
    by code_simp
  from 1 2 3 show ?thesis by simp
qed

text \<open>Without a \<open>package.json\<close> in the working directory the script does not reach the
  walk: the exception of \<open>Object.keys(undefined)\<close> ends it.\<close>

lemma missing_project_manifest_is_fatal:
  "\<not> existsSync (files h w) (path_join (cwd h) ''package.json'')
   \<Longrightarrow> fst (snapshot_main h w) = Uncaught"
  by (simp add: snapshot_main_def Let_def createDirIfNotExists_def
      getProjectDirectDependencies_def)

text \<open>
  Claim C7. When one of the candidate filenames of a package exists in the output
  directory as the loop of \<open>main\<close> comes to the package, the turn for it runs no command
  and leaves the world as it is, and the success tally and the skipped tally both go up
  by one, the failure tally staying. \<open>createPackageFile\<close>, which checks again for itself,
  would answer success without running a command either.
\<close>

theorem skip_when_archive_exists:
  assumes "\<exists>filename \<in> set (getPossiblePackageFilenames (name pkg) (version pkg)).
             existsSync (files h (world st)) (path_join outputDir filename)"
  shows "executed (trace (snd (archivePackage h outputDir n index pkg (c, st)))) = executed (trace st)
    \<and> world (snd (archivePackage h outputDir n index pkg (c, st))) = world st
    \<and> successCount (fst (archivePackage h outputDir n index pkg (c, st))) = successCount c + 1
    \<and> skippedCount (fst (archivePackage h outputDir n index pkg (c, st))) = skippedCount c + 1
    \<and> failCount (fst (archivePackage h outputDir n index pkg (c, st))) = failCount c
    \<and> fst (createPackageFile h pkg outputDir current n st)
    \<and> executed (trace (snd (createPackageFile h pkg outputDir current n st))) = executed (trace st)"
proof -
  from assms have "isPackageAlreadyDownloaded (files h (world st)) (name pkg) (version pkg) outputDir"
    by (simp add: isPackageAlreadyDownloaded_def list_ex_iff)
  then show ?thesis
    by (simp add: archivePackage_def createPackageFile_def Let_def)
qed

theorem skip_when_archive_exists_witness:
  "''c-2.0.0.tgz'' \<in> set (getPossiblePackageFilenames ''c'' ''2.0.0'')
   \<and> existsSync (files project_host c_archived) (path_join ''/proj/pkg'' ''c-2.0.0.tgz'')
   \<and> executed (trace (snd (archivePackage project_host ''/proj/pkg'' 2 1
          \<lparr>name = ''c'', version = ''2.0.0''\<rparr>
          (\<lparr>successCount = 1, skippedCount = 0, failCount = 0\<rparr>,
           \<lparr>world = c_archived, trace = []\<rparr>)))) = []
   \<and> fst (archivePackage project_host ''/proj/pkg'' 2 1 \<lparr>name = ''c'', version = ''2.0.0''\<rparr>
          (\<lparr>successCount = 1, skippedCount = 0, failCount = 0\<rparr>,
           \<lparr>world = c_archived, trace = []\<rparr>))
       = \<lparr>successCount = 2, skippedCount = 1, failCount = 0\<rparr>"
proof -
  let ?pkg = "\<lparr>name = ''c'', version = ''2.0.0''\<rparr>"
  let ?c = "\<lparr>successCount = 1, skippedCount = 0, failCount = 0\<rparr>"
  let ?st = "\<lparr>world = c_archived, trace = []\<rparr> :: (string list, snap_msg) state"
  have 1: "''c-2.0.0.tgz'' \<in> set (getPossiblePackageFilenames ''c'' ''2.0.0'')"
    by (simp add: getPossiblePackageFilenames_def includes_char_def)
  have 2: "existsSync (files project_host c_archived) (path_join ''/proj/pkg'' ''c-2.0.0.tgz'')"
    by code_simp
  from 1 2 have h: "\<exists>filename \<in> set (getPossiblePackageFilenames (name ?pkg) (version ?pkg)).
             existsSync (files project_host (world ?st)) (path_join ''/proj/pkg'' filename)"
    by auto
  note k = skip_when_archive_exists[OF h, of 2 1 ?c]
  from k have 3: "executed (trace (snd (archivePackage project_host ''/proj/pkg'' 2 1 ?pkg (?c, ?st)))) = []"
    by simp
  from k have "successCount (fst (archivePackage project_host ''/proj/pkg'' 2 1 ?pkg (?c, ?st))) = 2"
    "skippedCount (fst (archivePackage project_host ''/proj/pkg'' 2 1 ?pkg (?c, ?st))) = 1"
    "failCount (fst (archivePackage project_host ''/proj/pkg'' 2 1 ?pkg (?c, ?st))) = 0"
    by simp_all
  then have 4: "fst (archivePackage project_host ''/proj/pkg'' 2 1 ?pkg (?c, ?st))
       = \<lparr>successCount = 2, skippedCount = 1, failCount = 0\<rparr>"
    by (cases "fst (archivePackage project_host ''/proj/pkg'' 2 1 ?pkg (?c, ?st))") simp
  from 1 2 3 4 show ?thesis by blast
qed

text \<open>Turn after turn: when every package of the list has an archive, the whole loop runs
  no command, and both tallies go up by the length of the list.\<close>

lemma archiveLoop_all_present:
  assumes "\<forall>pkg \<in> set pkgs.
             isPackageAlreadyDownloaded (files h (world st)) (name pkg) (version pkg) outputDir"
  shows "executed (trace (snd (archiveLoop h outputDir n index pkgs (c, st)))) = executed (trace st)
    \<and> world (snd (archiveLoop h outputDir n index pkgs (c, st))) = world st
    \<and> successCount (fst (archiveLoop h outputDir n index pkgs (c, st))) = successCount c + length pkgs
    \<and> skippedCount (fst (archiveLoop h outputDir n index pkgs (c, st))) = skippedCount c + length pkgs
    \<and> failCount (fst (archiveLoop h outputDir n index pkgs (c, st))) = failCount c"
  using assms
proof (induction pkgs arbitrary: index c st)
  case Nil
  then show ?case by simp
next
  case (Cons pkg pkgs)
  let ?c = "c\<lparr>skippedCount := skippedCount c + 1, successCount := successCount c + 1\<rparr>"
  let ?st = "emit (Stdout (AlreadyPresent (index + 1) n (name pkg) (version pkg))) st"
  from Cons.prems have step: "archivePackage h outputDir n index pkg (c, st) = (?c, ?st)"
    by (simp add: archivePackage_def)
  from Cons.prems have "\<forall>p \<in> set pkgs.
      isPackageAlreadyDownloaded (files h (world ?st)) (name p) (version p) outputDir"
    by simp
  from Cons.IH[OF this, of "index + 1" ?c] step show ?case
    by simp
qed

end
